theory Spec2Isabelle
  imports Main "HOL-Library.Word"
begin

unbundle bit_operations_syntax

section \<open>Machine types, errors and buffers\<close>

type_synonym uint8_t = "8 word"
type_synonym uint16_t = "16 word"
type_synonym uint32_t = "32 word"

text \<open>
  Modelled from the spec: \<open>assert_param\<close> comes from the header \<open>assert.h\<close>, which is not
  among the sources. The spec calls a violated parameter check a fatal precondition check
  of the embedded build, so a failed \<open>assert_param\<close> ends the call with \<open>AssertFailed\<close>.
  A read or write outside an array is undefined in C; the model ends the call with
  \<open>OutOfBounds\<close> there, and with \<open>NullDeref\<close> where a null pointer is read.
\<close>

datatype error = AssertFailed | OutOfBounds | NullDeref

definition ebind :: "error + 'a \<Rightarrow> ('a \<Rightarrow> error + 'b) \<Rightarrow> error + 'b" where
  "ebind m f = (case m of Inl e \<Rightarrow> Inl e | Inr x \<Rightarrow> f x)"

definition assert_param :: "bool \<Rightarrow> (error + 'a) \<Rightarrow> error + 'a" where
  "assert_param c k = (if c then k else Inl AssertFailed)"

text \<open>
  A received frame lives in a fully initialised byte array (\<open>uint8_t data[65]\<close> of the
  receive task); \<open>peek\<close> is a read \<open>data[i]\<close>.
\<close>

definition peek :: "uint8_t list \<Rightarrow> nat \<Rightarrow> error + uint8_t" where
  "peek data i = (if i < length data then Inr (data ! i) else Inl OutOfBounds)"

text \<open>
  An outbound message is built in a local \<open>mqtt_msg\<close> that is not initialised: a cell of
  its array is \<open>None\<close> until the builder has written it. \<open>poke\<close> is a write
  \<open>buf[i] = v\<close>.
\<close>

type_synonym buffer = "uint8_t option list"

definition MQTT_MAX_MSG_NUM :: nat where "MQTT_MAX_MSG_NUM = 6"
definition MQTT_MAX_MSG_SIZE :: nat where "MQTT_MAX_MSG_SIZE = 128"

record mqtt_msg =
  size :: uint8_t
  data :: buffer

definition poke :: "buffer \<Rightarrow> nat \<Rightarrow> uint8_t \<Rightarrow> error + buffer" where
  "poke buf i v = (if i < length buf then Inr (buf[i := Some v]) else Inl OutOfBounds)"

definition fresh_msg_data :: buffer where
  "fresh_msg_data = replicate MQTT_MAX_MSG_SIZE None"

section \<open>Message types\<close>

definition TYPE_CONNECT :: uint8_t where "TYPE_CONNECT = 0x10"
definition TYPE_CONNACK :: uint8_t where "TYPE_CONNACK = 0x20"
definition TYPE_PUBLISH :: uint8_t where "TYPE_PUBLISH = 0x30"
definition TYPE_PUBACK :: uint8_t where "TYPE_PUBACK = 0x40"
definition TYPE_PUBREC :: uint8_t where "TYPE_PUBREC = 0x50"
definition TYPE_PUBREL :: uint8_t where "TYPE_PUBREL = 0x62"
definition TYPE_PUBCOMP :: uint8_t where "TYPE_PUBCOMP = 0x70"
definition TYPE_SUBSCRIBE :: uint8_t where "TYPE_SUBSCRIBE = 0x82"
definition TYPE_SUBACK :: uint8_t where "TYPE_SUBACK = 0x90"
definition TYPE_UNSUBSCRIBE :: uint8_t where "TYPE_UNSUBSCRIBE = 0xa2"
definition TYPE_UNSUBACK :: uint8_t where "TYPE_UNSUBACK = 0xb0"
definition TYPE_PINGREQ :: uint8_t where "TYPE_PINGREQ = 0xc0"
definition TYPE_PINGRESP :: uint8_t where "TYPE_PINGRESP = 0xd0"
definition TYPE_DISCONNECT :: uint8_t where "TYPE_DISCONNECT = 0xe0"

section \<open>Remaining length\<close>

text \<open>
  \<open>encode_length data encode\<close>: the do-while loop, with the local \<open>size\<close> as an argument
  (0 at the call). \<open>encode\<close> is the pointer \<open>buf + off\<close>. The continuation bit is or-ed
  into the local \<open>encode_byte\<close> when digits remain, but the store \<open>encode[size]\<close> and
  \<open>size++\<close> stand in the \<open>else\<close> branch only, so \<open>encode_byte\<close> is dropped at the next
  round.
\<close>

function encode_length_loop :: "uint32_t \<Rightarrow> uint8_t \<Rightarrow> buffer \<Rightarrow> nat \<Rightarrow> error + (uint8_t \<times> buffer)" where
  "encode_length_loop dat sz buf off =
     (let encode_byte = (ucast (dat mod 128) :: uint8_t);
          dat' = dat div 128
      in if dat' > 0
         then (let encode_byte' = encode_byte OR 0x80
               in encode_length_loop dat' sz buf off)
         else (case poke buf (off + unat sz) encode_byte of
                 Inl e \<Rightarrow> Inl e
               | Inr buf' \<Rightarrow> Inr (sz + 1, buf')))"
  by pat_completeness auto
termination
  by (relation "measure (\<lambda>(dat, sz, buf, off). unat dat)")
     (auto simp: unat_div word_less_nat_alt)

declare encode_length_loop.simps [simp del]

definition encode_length :: "uint32_t \<Rightarrow> buffer \<Rightarrow> nat \<Rightarrow> error + (uint8_t \<times> buffer)" where
  "encode_length dat buf off = encode_length_loop dat 0 buf off"

text \<open>
  \<open>decode_length decode step\<close>: \<open>decode\<close> points at the frame's first byte and is
  advanced before each read. The result is the value together with \<open>*step\<close> (a caller
  that passes \<open>NULL\<close> drops the second component). The loop's locals are arguments:
  the position \<open>pos\<close> of \<open>decode\<close> in \<open>data\<close>, \<open>multipiler\<close>, \<open>value\<close>, \<open>step\<close>.
\<close>

function decode_length_loop :: "uint8_t list \<Rightarrow> nat \<Rightarrow> uint32_t \<Rightarrow> uint32_t \<Rightarrow> uint8_t \<Rightarrow> error + (uint32_t \<times> uint8_t)" where
  "decode_length_loop dat pos multipiler val step =
     (let pos' = pos + 1;
          step' = step + 1
      in case peek dat pos' of
           Inl e \<Rightarrow> Inl e
         | Inr b \<Rightarrow>
            (let val' = val + ucast (b AND 0x7f) * multipiler;
                 multipiler' = multipiler * 128
             in if multipiler' > 128 * 128 * 128
                then Inr (0xffffffff, step')
                else if b AND 0x80 \<noteq> 0
                     then decode_length_loop dat pos' multipiler' val' step'
                     else Inr (val', step')))"
  by pat_completeness auto
termination
  by (relation "measure (\<lambda>(dat, pos, multipiler, val, step). length dat - pos)")
     (auto simp: peek_def split: if_splits)

declare decode_length_loop.simps [simp del]

definition decode_length :: "uint8_t list \<Rightarrow> error + (uint32_t \<times> uint8_t)" where
  "decode_length dat = decode_length_loop dat 0 1 0 0"


section \<open>Engine state\<close>

text \<open>
  The engine's globals are the identifier counter \<open>g_uuid\<close> and the driver \<open>g_driver\<close>.
  What a call does to the outside is recorded in order in \<open>trace\<close>: \<open>QueueSend msg\<close> is
  the call \<open>xQueueSend(xSendQueue, msg, ...)\<close> of \<open>mqtt_send_data\<close> (the queue copies
  the whole \<open>mqtt_msg\<close>), \<open>Call_...\<close> is a call of the driver's callback of that name
  with the arguments given.
\<close>

datatype event =
    QueueSend mqtt_msg
  | Call_connack uint8_t
  | Call_publish "uint8_t list" "uint8_t list" uint32_t
  | Call_puback uint16_t
  | Call_pubrec uint16_t
  | Call_pubrel uint16_t
  | Call_pubcomp uint16_t
  | Call_suback uint8_t uint16_t
  | Call_unsuback uint16_t
  | Call_pingresp

record mqtt_state =
  g_uuid :: uint16_t
  trace :: "event list"

definition initial_state :: mqtt_state where
  "initial_state = \<lparr>g_uuid = 0, trace = []\<rparr>"

definition emit :: "event \<Rightarrow> mqtt_state \<Rightarrow> mqtt_state" where
  "emit e st = st\<lparr>trace := trace st @ [e]\<rparr>"

definition mqtt_send_data :: "mqtt_msg \<Rightarrow> mqtt_state \<Rightarrow> mqtt_state" where
  "mqtt_send_data msg st = emit (QueueSend msg) st"

section \<open>C strings and the write cursor\<close>

text \<open>
  A \<open>const char *\<close> argument is \<open>None\<close> for \<open>NULL\<close>, else the bytes at the pointer; the
  string ends before the first zero byte (or at the end of the list, where the
  terminator stands).
\<close>

type_synonym char_ptr = "uint8_t list option"

definition c_str :: "uint8_t list \<Rightarrow> uint8_t list" where
  "c_str s = takeWhile (\<lambda>c. c \<noteq> 0) s"

definition strlen :: "uint8_t list \<Rightarrow> nat" where
  "strlen s = length (c_str s)"

definition deref :: "char_ptr \<Rightarrow> error + uint8_t list" where
  "deref p = (case p of None \<Rightarrow> Inl NullDeref | Some s \<Rightarrow> Inr s)"

text \<open>\<open>put v (buf, pos)\<close> is \<open>*pdata ++ = v\<close> with \<open>pdata = buf + pos\<close>.\<close>

definition put :: "uint8_t \<Rightarrow> buffer \<times> nat \<Rightarrow> error + (buffer \<times> nat)" where
  "put v c = (case c of (buf, pos) \<Rightarrow> ebind (poke buf pos v) (\<lambda>buf'. Inr (buf', pos + 1)))"

fun put_bytes :: "uint8_t list \<Rightarrow> buffer \<times> nat \<Rightarrow> error + (buffer \<times> nat)" where
  "put_bytes [] c = Inr c"
| "put_bytes (v # vs) c = ebind (put v c) (put_bytes vs)"

text \<open>\<open>strcpy((char *)pdata, s)\<close>: the string's bytes and the terminator; \<open>pdata\<close> stays.\<close>

definition strcpy :: "uint8_t list \<Rightarrow> buffer \<times> nat \<Rightarrow> error + (buffer \<times> nat)" where
  "strcpy s c = (case c of (buf, pos) \<Rightarrow>
     ebind (put_bytes (c_str s @ [0]) (buf, pos)) (\<lambda>(buf', _). Inr (buf', pos)))"

text \<open>
  The block the builders repeat for each string:
  \<open>str_len = strlen(s); *pdata ++ = (uint8_t)(str_len >> 8);
  *pdata ++ = (uint8_t)(str_len & 0xff); strcpy((char *)pdata, s); pdata += str_len;\<close>
  with \<open>uint16_t str_len\<close>.
\<close>

definition add_string :: "uint8_t list \<Rightarrow> buffer \<times> nat \<Rightarrow> error + (buffer \<times> nat)" where
  "add_string s c =
     (let str_len = (of_nat (strlen s) :: uint16_t)
      in ebind (put (ucast (drop_bit 8 str_len)) c) (\<lambda>c.
         ebind (put (ucast (str_len AND 0xff)) c) (\<lambda>c.
         ebind (strcpy s c) (\<lambda>(buf, pos).
         Inr (buf, pos + unat str_len)))))"

text \<open>\<open>*pdata ++ = (uint8_t)(id >> 8); *pdata ++ = (uint8_t)(id & 0xff);\<close>\<close>

definition add_uint16 :: "uint16_t \<Rightarrow> buffer \<times> nat \<Rightarrow> error + (buffer \<times> nat)" where
  "add_uint16 v c =
     ebind (put (ucast (drop_bit 8 v)) c) (\<lambda>c. put (ucast (v AND 0xff)) c)"

section \<open>Packet builders\<close>

subsection \<open>CONNECT\<close>

text \<open>
  \<open>connect_flag\<close> is a union of the byte \<open>flag\<close> and the bit fields \<open>_flag\<close>; its
  declaration (\<open>mqtt.h\<close>) is not among the sources, so the model keeps the byte and every
  bit field the code reads as fields of their own, the width of a field being that of
  the values the code compares it with.
\<close>

record connect_flag =
  flag_byte :: uint8_t
  clear_session :: "1 word"
  will_flag :: "1 word"
  will_qos :: "2 word"
  will_retain :: "1 word"
  password_flag :: "1 word"
  username_flag :: "1 word"

record connect_param =
  client_id :: char_ptr
  flag :: connect_flag
  alive_time :: uint16_t
  will_topic :: char_ptr
  will_msg :: char_ptr
  username :: char_ptr
  password :: char_ptr

definition protocol_name :: "uint8_t list" where
  "protocol_name = [0x00, 0x04, 0x4d, 0x51, 0x54, 0x54]"

definition PROTOCOL_LEVEL :: uint8_t where "PROTOCOL_LEVEL = 0x04"

definition check_connect_param :: "connect_param \<Rightarrow> error + unit" where
  "check_connect_param param =
     ebind (if client_id param = None
            then assert_param (clear_session (flag param) = 1) (Inr ())
            else Inr ()) (\<lambda>_.
     ebind (if will_flag (flag param) = 0
            then assert_param (will_qos (flag param) = 0)
                   (assert_param (will_retain (flag param) = 0) (Inr ()))
            else assert_param (will_qos (flag param) < 3)
                   (assert_param (will_topic param \<noteq> None)
                     (assert_param (will_msg param \<noteq> None) (Inr ())))) (\<lambda>_.
     ebind (if username_flag (flag param) = 1
            then assert_param (username param \<noteq> None) (Inr ())
            else Inr ()) (\<lambda>_.
     (if password_flag (flag param) = 1
      then assert_param (password param \<noteq> None) (Inr ())
      else Inr ()))))"

definition calculate_connect_payload_len :: "connect_param \<Rightarrow> error + uint32_t" where
  "calculate_connect_payload_len param =
     (let payload_len = (10 :: uint32_t)
      in ebind (if client_id param \<noteq> None
                then ebind (deref (client_id param)) (\<lambda>s.
                       Inr (payload_len + (of_nat (strlen s) + 2)))
                else Inr payload_len) (\<lambda>payload_len.
         ebind (if will_flag (flag param) = 1
                then ebind (deref (will_topic param)) (\<lambda>t.
                     ebind (deref (will_msg param)) (\<lambda>m.
                       Inr (payload_len + (of_nat (strlen t) + 2) + (of_nat (strlen m) + 2))))
                else Inr payload_len) (\<lambda>payload_len.
         ebind (if username_flag (flag param) = 1
                then ebind (deref (username param)) (\<lambda>s.
                       Inr (payload_len + (of_nat (strlen s) + 2)))
                else Inr payload_len) (\<lambda>payload_len.
         (if password_flag (flag param) = 1
          then ebind (deref (password param)) (\<lambda>s.
                 Inr (payload_len + (of_nat (strlen s) + 2)))
          else Inr payload_len)))))"

text \<open>
  The body of \<open>mqtt_connect\<close> up to the last write: the result is \<open>payload_len\<close>,
  \<open>encode_len\<close>, the array \<open>msg.data\<close> and the final position of \<open>pdata\<close> in it.
\<close>

definition connect_fill :: "connect_param \<Rightarrow> error + (uint32_t \<times> uint8_t \<times> buffer \<times> nat)" where
  "connect_fill param =
     ebind (check_connect_param param) (\<lambda>_.
     ebind (calculate_connect_payload_len param) (\<lambda>payload_len.
     ebind (put TYPE_CONNECT (fresh_msg_data, 0)) (\<lambda>(buf, pos).
     ebind (encode_length payload_len buf pos) (\<lambda>(encode_len, buf).
     assert_param (payload_len + ucast encode_len + 1 \<le> of_nat MQTT_MAX_MSG_SIZE) (
     ebind (put_bytes protocol_name (buf, pos + unat encode_len)) (\<lambda>c.
     ebind (put PROTOCOL_LEVEL c) (\<lambda>c.
     ebind (put (flag_byte (flag param)) c) (\<lambda>c.
     ebind (add_uint16 (alive_time param) c) (\<lambda>c.
     ebind (if client_id param \<noteq> None
            then ebind (deref (client_id param)) (\<lambda>s. add_string s c)
            else ebind (put 0x00 c) (put 0x00)) (\<lambda>c.
     ebind (if will_flag (flag param) = 1
            then ebind (deref (will_topic param)) (\<lambda>t.
                 ebind (add_string t c) (\<lambda>c.
                 ebind (deref (will_msg param)) (\<lambda>m. add_string m c)))
            else Inr c) (\<lambda>c.
     ebind (if username_flag (flag param) = 1
            then ebind (deref (username param)) (\<lambda>s. add_string s c)
            else Inr c) (\<lambda>c.
     ebind (if password_flag (flag param) = 1
            then ebind (deref (password param)) (\<lambda>s. add_string s c)
            else Inr c) (\<lambda>(buf, pos).
     Inr (payload_len, encode_len, buf, pos))))))))))))))"

definition mqtt_connect :: "connect_param \<Rightarrow> mqtt_state \<Rightarrow> error + mqtt_state" where
  "mqtt_connect param st =
     ebind (connect_fill param) (\<lambda>(payload_len, encode_len, buf, pos).
       Inr (mqtt_send_data \<lparr>size = ucast (payload_len + ucast encode_len + 1), data = buf\<rparr> st))"

subsection \<open>PUBLISH, SUBSCRIBE, UNSUBSCRIBE\<close>

definition mqtt_publish :: "char_ptr \<Rightarrow> char_ptr \<Rightarrow> uint8_t \<Rightarrow> uint8_t \<Rightarrow> uint8_t \<Rightarrow> mqtt_state \<Rightarrow> error + mqtt_state" where
  "mqtt_publish topic content dup qos retain st =
     assert_param (topic \<noteq> None) (
     assert_param (content \<noteq> None) (
     ebind (deref topic) (\<lambda>t.
     ebind (deref content) (\<lambda>ct.
     let payload_len = (of_nat (strlen t) + 2 + of_nat (strlen ct) :: uint32_t);
         payload_len = (if qos \<noteq> 0 then payload_len + 2 else payload_len)
     in
     ebind (put (TYPE_PUBLISH OR push_bit 3 (dup AND 0x01) OR push_bit 1 (qos AND 0x03)
                   OR (retain AND 0x01)) (fresh_msg_data, 0)) (\<lambda>(buf, pos).
     ebind (encode_length payload_len buf pos) (\<lambda>(encode_len, buf).
     assert_param (payload_len + ucast encode_len + 1 \<le> of_nat MQTT_MAX_MSG_SIZE) (
     ebind (add_string t (buf, pos + unat encode_len)) (\<lambda>c.
     ebind (if qos \<noteq> 0
            then ebind (add_uint16 (g_uuid st) c) (\<lambda>c. Inr (c, st\<lparr>g_uuid := g_uuid st + 1\<rparr>))
            else Inr (c, st)) (\<lambda>(c, st).
     ebind (strcpy ct c) (\<lambda>(buf, pos).
     Inr (mqtt_send_data \<lparr>size = ucast (payload_len + ucast encode_len + 1), data = buf\<rparr> st)
     ))))))))))"

definition mqtt_subscribe :: "char_ptr \<Rightarrow> uint8_t \<Rightarrow> mqtt_state \<Rightarrow> error + (uint8_t \<times> mqtt_state)" where
  "mqtt_subscribe topic qos st =
     assert_param (topic \<noteq> None) (
     ebind (deref topic) (\<lambda>t.
     let payload_len = (of_nat (strlen t) + 5 :: uint32_t)
     in
     ebind (put TYPE_SUBSCRIBE (fresh_msg_data, 0)) (\<lambda>(buf, pos).
     ebind (encode_length payload_len buf pos) (\<lambda>(encode_len, buf).
     assert_param (payload_len + ucast encode_len + 1 \<le> of_nat MQTT_MAX_MSG_SIZE) (
     ebind (add_uint16 (g_uuid st) (buf, pos + unat encode_len)) (\<lambda>c.
     let st = st\<lparr>g_uuid := g_uuid st + 1\<rparr>
     in
     ebind (add_string t c) (\<lambda>(buf, pos).
     ebind (poke buf pos (qos AND 0x03)) (\<lambda>buf.
     let st = mqtt_send_data \<lparr>size = ucast (payload_len + ucast encode_len + 1), data = buf\<rparr> st
     in Inr (ucast (g_uuid st), st)))))))))"

definition mqtt_unsubscribe :: "char_ptr \<Rightarrow> mqtt_state \<Rightarrow> error + mqtt_state" where
  "mqtt_unsubscribe topic st =
     assert_param (topic \<noteq> None) (
     ebind (deref topic) (\<lambda>t.
     let payload_len = (of_nat (strlen t) + 4 :: uint32_t)
     in
     ebind (put TYPE_SUBSCRIBE (fresh_msg_data, 0)) (\<lambda>(buf, pos).
     ebind (encode_length payload_len buf pos) (\<lambda>(encode_len, buf).
     assert_param (payload_len + ucast encode_len + 1 \<le> of_nat MQTT_MAX_MSG_SIZE) (
     ebind (add_uint16 (g_uuid st) (buf, pos + unat encode_len)) (\<lambda>c.
     let st = st\<lparr>g_uuid := g_uuid st + 1\<rparr>
     in
     ebind (add_string t c) (\<lambda>(buf, pos).
     Inr (mqtt_send_data \<lparr>size = ucast (payload_len + ucast encode_len + 1), data = buf\<rparr> st)
     )))))))"

subsection \<open>Acknowledgments\<close>

text \<open>
  \<open>mqtt_puback\<close>, \<open>mqtt_pubrec\<close> and \<open>mqtt_pubcomp\<close> differ in the type byte only:
  type, \<open>0x02\<close>, the identifier's high and low byte, \<open>msg.size = 4\<close>.
\<close>

definition ack_frame :: "uint8_t \<Rightarrow> uint16_t \<Rightarrow> mqtt_state \<Rightarrow> error + mqtt_state" where
  "ack_frame ty ident st =
     ebind (put ty (fresh_msg_data, 0)) (\<lambda>c.
     ebind (put 0x02 c) (\<lambda>c.
     ebind (add_uint16 ident c) (\<lambda>(buf, pos).
     Inr (mqtt_send_data \<lparr>size = 4, data = buf\<rparr> st))))"

definition mqtt_puback :: "uint16_t \<Rightarrow> mqtt_state \<Rightarrow> error + mqtt_state" where
  "mqtt_puback ident st = ack_frame TYPE_PUBACK ident st"

definition mqtt_pubrec :: "uint16_t \<Rightarrow> mqtt_state \<Rightarrow> error + mqtt_state" where
  "mqtt_pubrec ident st = ack_frame TYPE_PUBREC ident st"

definition mqtt_pubcomp :: "uint16_t \<Rightarrow> mqtt_state \<Rightarrow> error + mqtt_state" where
  "mqtt_pubcomp ident st = ack_frame TYPE_PUBCOMP ident st"

section \<open>Inbound handlers\<close>

type_synonym process_func = "uint8_t list \<Rightarrow> uint8_t \<Rightarrow> mqtt_state \<Rightarrow> error + mqtt_state"

text \<open>\<open>uint16_t uuid = data[2]; uuid <<= 8; uuid += data[3];\<close>\<close>

definition read_uint16 :: "uint8_t list \<Rightarrow> nat \<Rightarrow> error + uint16_t" where
  "read_uint16 dat i =
     ebind (peek dat i) (\<lambda>hi.
     ebind (peek dat (i + 1)) (\<lambda>lo.
     Inr (push_bit 8 (ucast hi :: uint16_t) + ucast lo)))"

text \<open>
  \<open>strncpy(topic, (const char *)pdata, n); topic[n] = '\0';\<close> read back as a C string:
  the bytes at \<open>pdata = dat + pos\<close> up to the first zero byte, \<open>n\<close> of them at most.
\<close>

fun strncpy_from :: "uint8_t list \<Rightarrow> nat \<Rightarrow> nat \<Rightarrow> error + uint8_t list" where
  "strncpy_from dat pos 0 = Inr []"
| "strncpy_from dat pos (Suc n) =
     ebind (peek dat pos) (\<lambda>b.
       if b = 0 then Inr []
       else ebind (strncpy_from dat (pos + 1) n) (\<lambda>r. Inr (b # r)))"

definition process_connack :: process_func where
  "process_connack dat len st =
     (if len \<ge> 4
      then ebind (decode_length dat) (\<lambda>(v, _).
           assert_param (v = 2) (
           ebind (peek dat 3) (\<lambda>status.
           Inr (emit (Call_connack status) st))))
      else Inr st)"

text \<open>
  The callback gets the pointer \<open>pdata\<close> and the length \<open>len - step - topic_len - 3\<close>
  (an \<open>int\<close> expression converted to the parameter's \<open>uint32_t\<close>); the event records the
  bytes of the array that this pointer and length denote.
\<close>

definition process_publish :: process_func where
  "process_publish dat len st =
     (if len \<ge> 4
      then ebind (decode_length dat) (\<lambda>(data_len, step).
           ebind (peek dat 0) (\<lambda>d0.
           let dup = drop_bit 3 d0 AND 0x01;
               qos = drop_bit 1 d0 AND 0x03;
               pos = unat step + 1
           in
           ebind (read_uint16 dat pos) (\<lambda>topic_len.
           let pos = pos + 2
           in
           ebind (if topic_len \<ge> 42
                  then strncpy_from dat pos 41
                  else strncpy_from dat pos (unat topic_len)) (\<lambda>topic.
           let pos = pos + unat topic_len
           in
           ebind (if qos = 1 \<or> qos = 2
                  then ebind (read_uint16 dat pos) (\<lambda>ident. Inr (ident, pos + 2, len - 2))
                  else Inr (0, pos, len)) (\<lambda>(ident, pos, len).
           let n = (ucast len - ucast step - ucast topic_len - 3 :: uint32_t);
               st = emit (Call_publish topic (take (unat n) (drop pos dat)) n) st
           in if qos = 1 then mqtt_puback ident st
              else if qos = 2 then mqtt_pubrec ident st
              else Inr st)))))
      else Inr st)"

definition process_puback :: process_func where
  "process_puback dat len st =
     (if len \<ge> 4
      then ebind (decode_length dat) (\<lambda>(v, _).
           assert_param (v = 2) (
           ebind (read_uint16 dat 2) (\<lambda>uuid.
           Inr (emit (Call_puback uuid) st))))
      else Inr st)"

definition process_pubrec :: process_func where
  "process_pubrec dat len st =
     (if len \<ge> 4
      then ebind (decode_length dat) (\<lambda>(v, _).
           assert_param (v = 2) (
           ebind (read_uint16 dat 2) (\<lambda>uuid.
           Inr (emit (Call_pubrec uuid) st))))
      else Inr st)"

definition process_pubrel :: process_func where
  "process_pubrel dat len st =
     (if len \<ge> 4
      then ebind (decode_length dat) (\<lambda>(v, _).
           assert_param (v = 2) (
           ebind (read_uint16 dat 2) (\<lambda>uuid.
           ebind (mqtt_pubcomp uuid st) (\<lambda>st.
           Inr (emit (Call_pubrel uuid) st)))))
      else Inr st)"

definition process_pubcomp :: process_func where
  "process_pubcomp dat len st =
     (if len \<ge> 4
      then ebind (decode_length dat) (\<lambda>(v, _).
           assert_param (v = 2) (
           ebind (read_uint16 dat 2) (\<lambda>uuid.
           Inr (emit (Call_pubcomp uuid) st))))
      else Inr st)"

definition process_suback :: process_func where
  "process_suback dat len st =
     (if len \<ge> 4
      then ebind (decode_length dat) (\<lambda>(v, _).
           assert_param (v = 3) (
           ebind (read_uint16 dat 2) (\<lambda>uuid.
           ebind (peek dat 4) (\<lambda>status.
           Inr (emit (Call_suback status uuid) st)))))
      else Inr st)"

definition process_unsuback :: process_func where
  "process_unsuback dat len st =
     (if len \<ge> 4
      then ebind (decode_length dat) (\<lambda>(v, _).
           assert_param (v = 3) (
           ebind (read_uint16 dat 2) (\<lambda>uuid.
           Inr (emit (Call_unsuback uuid) st))))
      else Inr st)"

definition process_pingresp :: process_func where
  "process_pingresp dat len st = Inr (emit Call_pingresp st)"

section \<open>Dispatch\<close>

record func_node =
  type :: uint8_t
  process :: process_func

definition funcs :: "func_node list" where
  "funcs =
     [\<lparr>type = TYPE_CONNACK, process = process_connack\<rparr>,
      \<lparr>type = TYPE_PUBLISH, process = process_publish\<rparr>,
      \<lparr>type = TYPE_PUBACK, process = process_puback\<rparr>,
      \<lparr>type = TYPE_PUBREC, process = process_pubrec\<rparr>,
      \<lparr>type = TYPE_PUBREL, process = process_pubrel\<rparr>,
      \<lparr>type = TYPE_PUBCOMP, process = process_pubcomp\<rparr>,
      \<lparr>type = TYPE_SUBACK, process = process_suback\<rparr>,
      \<lparr>type = TYPE_UNSUBACK, process = process_unsuback\<rparr>,
      \<lparr>type = TYPE_PINGRESP, process = process_pingresp\<rparr>]"

text \<open>
  The network mode is read with \<open>mode_net()\<close>; the code asks only whether it is
  \<open>MODE_NET_WIFI\<close>, the other mode uses the M26 (cellular) modem.
\<close>

datatype net_mode = MODE_NET_WIFI | MODE_NET_M26

text \<open>
  The two \<open>for\<close> loops of \<open>vMqttRecv\<close> over the entries from index \<open>i\<close> on, run after a
  successful receive has filled the array \<open>data\<close> and the \<open>uint16_t len\<close>; the handler
  takes a \<open>uint8_t\<close> length.
\<close>

fun scan_wifi :: "func_node list \<Rightarrow> uint8_t list \<Rightarrow> uint16_t \<Rightarrow> mqtt_state \<Rightarrow> error + mqtt_state" where
  "scan_wifi [] dat len st = Inr st"
| "scan_wifi (f # fs) dat len st =
     ebind (peek dat 0) (\<lambda>d0.
       if type f = (d0 AND 0xf0) then process f dat (ucast len) st
       else if type f = d0 then process f dat (ucast len) st
       else scan_wifi fs dat len st)"

fun scan_m26 :: "func_node list \<Rightarrow> uint8_t list \<Rightarrow> uint16_t \<Rightarrow> mqtt_state \<Rightarrow> error + mqtt_state" where
  "scan_m26 [] dat len st = Inr st"
| "scan_m26 (f # fs) dat len st =
     ebind (peek dat 0) (\<lambda>d0.
       if type f = d0 then process f dat (ucast len) st
       else scan_m26 fs dat len st)"

definition vMqttRecv_dispatch :: "net_mode \<Rightarrow> uint8_t list \<Rightarrow> uint16_t \<Rightarrow> mqtt_state \<Rightarrow> error + mqtt_state" where
  "vMqttRecv_dispatch mode dat len st =
     (if mode = MODE_NET_WIFI then scan_wifi funcs dat len st
      else scan_m26 funcs dat len st)"

section \<open>What the statements observe\<close>

text \<open>
  The sender task hands \<open>msg.data\<close> and \<open>msg.size\<close> to the transport's write call, so the
  bytes of a queued message that reach the wire are the first \<open>size\<close> cells of its array.
\<close>

definition wire_bytes :: "mqtt_msg \<Rightarrow> buffer" where
  "wire_bytes msg = take (unat (size msg)) (data msg)"

definition sent_frames :: "mqtt_state \<Rightarrow> buffer list" where
  "sent_frames st =
     concat (map (\<lambda>e. case e of QueueSend m \<Rightarrow> [wire_bytes m] | _ \<Rightarrow> []) (trace st))"

text \<open>
  The round trip of the remaining length as the builders and the handlers compose it: the
  type byte is written, \<open>encode_length\<close> writes behind it, and \<open>decode_length\<close> gets the
  frame made of the cells written. The result is the decoder's pair and the encoder's
  byte count.
\<close>

definition length_roundtrip :: "uint32_t \<Rightarrow> error + ((uint32_t \<times> uint8_t) \<times> uint8_t)" where
  "length_roundtrip v =
     ebind (put TYPE_CONNECT (fresh_msg_data, 0)) (\<lambda>(buf, pos).
     ebind (encode_length v buf pos) (\<lambda>(n, buf).
     case those (take (pos + unat n) buf) of
       None \<Rightarrow> Inl OutOfBounds
     | Some frame \<Rightarrow> ebind (decode_length frame) (\<lambda>r. Inr (r, n))))"

text \<open>
  The packet identifier of a queued message, read at cell \<open>k\<close> of its array the way the
  handlers read one (high byte first). A frame of at most 128 bytes has a one-byte
  remaining length, so the identifier of a SUBSCRIBE or UNSUBSCRIBE frame is at cell 2 and
  that of a PUBLISH frame behind the length-prefixed topic, at cell 4 plus the topic's
  length.
\<close>

definition frame_ident :: "nat \<Rightarrow> mqtt_msg \<Rightarrow> uint16_t option" where
  "frame_ident k m =
     (if k + 1 < length (data m)
      then (case (data m ! k, data m ! (k + 1)) of
              (Some hi, Some lo) \<Rightarrow> Some (push_bit 8 (ucast hi) + ucast lo)
            | _ \<Rightarrow> None)
      else None)"

text \<open>
  The same identifier read from the bytes that reach the wire: the two cells have to lie
  inside the first \<open>size\<close> cells of the message.
\<close>

definition wire_ident :: "nat \<Rightarrow> mqtt_msg \<Rightarrow> uint16_t option" where
  "wire_ident k m =
     (if k + 1 < length (wire_bytes m)
      then (case (wire_bytes m ! k, wire_bytes m ! (k + 1)) of
              (Some hi, Some lo) \<Rightarrow> Some (push_bit 8 (ucast hi) + ucast lo)
            | _ \<Rightarrow> None)
      else None)"

text \<open>
  A run of builder calls: the builders that take an identifier from \<open>g_uuid\<close>, called one
  after the other on the engine's state; a failed assertion ends the run.
\<close>

datatype request =
    Publish char_ptr char_ptr uint8_t uint8_t uint8_t
  | Subscribe char_ptr uint8_t
  | Unsubscribe char_ptr

fun request_builder :: "request \<Rightarrow> mqtt_state \<Rightarrow> error + mqtt_state" where
  "request_builder (Publish topic content dup qos retain) st = mqtt_publish topic content dup qos retain st"
| "request_builder (Subscribe topic qos) st = map_sum id snd (mqtt_subscribe topic qos st)"
| "request_builder (Unsubscribe topic) st = mqtt_unsubscribe topic st"

fun run_requests :: "request list \<Rightarrow> mqtt_state \<Rightarrow> error + mqtt_state" where
  "run_requests [] st = Inr st"
| "run_requests (r # rs) st = ebind (request_builder r st) (run_requests rs)"

fun uses_ident :: "request \<Rightarrow> bool" where
  "uses_ident (Publish topic content dup qos retain) = (qos \<noteq> 0)"
| "uses_ident (Subscribe topic qos) = True"
| "uses_ident (Unsubscribe topic) = True"

fun ident_pos :: "request \<Rightarrow> nat" where
  "ident_pos (Publish topic content dup qos retain) = 4 + strlen (case topic of None \<Rightarrow> [] | Some t \<Rightarrow> t)"
| "ident_pos (Subscribe topic qos) = 2"
| "ident_pos (Unsubscribe topic) = 2"

definition sent_idents :: "nat \<Rightarrow> mqtt_state \<Rightarrow> uint16_t option list" where
  "sent_idents k st =
     concat (map (\<lambda>e. case e of QueueSend m \<Rightarrow> [frame_ident k m] | _ \<Rightarrow> []) (trace st))"

text \<open>
  The inbound wire format as the specification words it, to say which frames are well
  formed. The remaining length is written in base 128, low digit first, seven value bits
  to a byte, bit 7 set on every byte but the last. A two-byte field is big-endian. A
  PUBLISH frame is the byte \<open>0x30 | dup<<3 | qos<<1 | retain\<close>, the remaining length, the
  length-prefixed topic, the identifier when qos is not 0, and the raw payload. An
  acknowledgment (PUBACK, PUBREC, PUBREL, PUBCOMP) is its type byte, the remaining length
  2 and the identifier.
\<close>

fun spec_encode_length :: "nat \<Rightarrow> uint8_t list" where
  "spec_encode_length n =
     (if n < 128 then [of_nat n]
      else (of_nat (n mod 128) OR 0x80) # spec_encode_length (n div 128))"

declare spec_encode_length.simps [simp del]

definition be16 :: "uint16_t \<Rightarrow> uint8_t list" where
  "be16 w = [ucast (drop_bit 8 w), ucast (w AND 0xff)]"

definition spec_publish_frame ::
  "bool \<Rightarrow> uint8_t \<Rightarrow> bool \<Rightarrow> uint8_t list \<Rightarrow> uint16_t \<Rightarrow> uint8_t list \<Rightarrow> uint8_t list" where
  "spec_publish_frame dup qos retain topic ident payload =
     (let body = be16 (of_nat (length topic)) @ topic
                 @ (if qos > 0 then be16 ident else []) @ payload
      in (0x30 OR push_bit 3 (of_bool dup) OR push_bit 1 qos OR of_bool retain)
         # spec_encode_length (length body) @ body)"

definition spec_ack_frame :: "uint8_t \<Rightarrow> uint16_t \<Rightarrow> uint8_t list" where
  "spec_ack_frame ty ident = [ty, 0x02] @ be16 ident"

section \<open>Basic facts\<close>

lemma ebind_Inr [simp]: "ebind (Inr x) f = f x"
  by (simp add: ebind_def)

lemma ebind_Inl [simp]: "ebind (Inl e) f = Inl e"
  by (simp add: ebind_def)

lemmas TYPE_defs = TYPE_CONNACK_def TYPE_PUBLISH_def TYPE_PUBACK_def TYPE_PUBREC_def
  TYPE_PUBREL_def TYPE_PUBCOMP_def TYPE_SUBACK_def TYPE_UNSUBACK_def TYPE_PINGRESP_def

subsection \<open>The encoder stores one byte\<close>

lemma digit_below_128: "(ucast ((dat :: uint32_t) mod 128) :: uint8_t) < 0x80"
proof -
  have "unat (dat mod 128) < 128"
    by (simp add: unat_mod)
  then have "unat (ucast (dat mod 128) :: uint8_t) < 128"
    by (simp add: unsigned_ucast_eq take_bit_nat_eq_self)
  then show ?thesis
    by (simp add: word_less_nat_alt)
qed

lemma encode_length_loop_result:
  "off + unat sz < length buf \<Longrightarrow>
   \<exists>b. b < 0x80 \<and>
       encode_length_loop dat sz buf off = Inr (sz + 1, buf[off + unat sz := Some b])"
proof (induction dat sz buf off rule: encode_length_loop.induct)
  case (1 dat sz buf off)
  show ?case
  proof (cases "dat div 128 > 0")
    case True
    with 1 show ?thesis
      by (subst encode_length_loop.simps) (simp add: Let_def)
  next
    case False
    have "(ucast (dat mod 128) :: uint8_t) < 0x80"
      by (rule digit_below_128)
    with False 1 show ?thesis
      by (subst encode_length_loop.simps) (auto simp add: Let_def poke_def)
  qed
qed

lemma encode_length_small:
  "dat < 128 \<Longrightarrow> off < length buf \<Longrightarrow>
   encode_length dat buf off = Inr (1, buf[off := Some (ucast dat)])"
  apply (simp add: encode_length_def)
  apply (subst encode_length_loop.simps)
  apply (simp add: Let_def poke_def div_word_less mod_word_less)
  done

subsection \<open>Short frames and the table scan\<close>

lemma short_handlers:
  "len < 4 \<Longrightarrow> process_connack dat len st = Inr st"
  "len < 4 \<Longrightarrow> process_publish dat len st = Inr st"
  "len < 4 \<Longrightarrow> process_puback dat len st = Inr st"
  "len < 4 \<Longrightarrow> process_pubrec dat len st = Inr st"
  "len < 4 \<Longrightarrow> process_pubrel dat len st = Inr st"
  "len < 4 \<Longrightarrow> process_pubcomp dat len st = Inr st"
  "len < 4 \<Longrightarrow> process_suback dat len st = Inr st"
  "len < 4 \<Longrightarrow> process_unsuback dat len st = Inr st"
  by (simp_all add: process_connack_def process_publish_def process_puback_def
      process_pubrec_def process_pubrel_def process_pubcomp_def process_suback_def
      process_unsuback_def flip: not_less)

lemma ucast_len_short: "(len :: uint16_t) < 4 \<Longrightarrow> (ucast len :: uint8_t) < 4"
  by (simp add: word_less_iff_unsigned [where 'a=nat] unsigned_ucast_eq take_bit_eq_mod)

lemma scan_wifi_find:
  "dat \<noteq> [] \<Longrightarrow> scan_wifi fs dat len st =
     (case find (\<lambda>f. type f = (hd dat AND 0xf0) \<or> type f = hd dat) fs of
        None \<Rightarrow> Inr st
      | Some f \<Rightarrow> process f dat (ucast len) st)"
  by (induction fs) (auto simp: peek_def hd_conv_nth)

lemma scan_m26_find:
  "dat \<noteq> [] \<Longrightarrow> scan_m26 fs dat len st =
     (case find (\<lambda>f. type f = hd dat) fs of
        None \<Rightarrow> Inr st
      | Some f \<Rightarrow> process f dat (ucast len) st)"
  by (induction fs) (auto simp: peek_def hd_conv_nth)

subsection \<open>What a builder writes\<close>

lemma ebind_eq_Inr: "ebind m f = Inr y \<longleftrightarrow> (\<exists>x. m = Inr x \<and> f x = Inr y)"
  by (cases m) (simp_all add: ebind_def)

lemma assert_param_eq_Inr: "assert_param c k = Inr y \<longleftrightarrow> c \<and> k = Inr y"
  by (simp add: assert_param_def)

lemma uint16_bytes:
  "push_bit 8 (ucast (ucast (drop_bit 8 v) :: uint8_t) :: uint16_t) + ucast (ucast (v AND 0xff) :: uint8_t) = v"
proof -
  have m: "(0xff :: uint16_t) = mask 8"
    by (simp add: mask_eq_exp_minus_1)
  have "push_bit 8 (ucast (ucast (drop_bit 8 v) :: uint8_t) :: uint16_t) + ucast (ucast (v AND 0xff) :: uint8_t)
      = push_bit 8 (ucast (ucast (drop_bit 8 v) :: uint8_t) :: uint16_t) OR ucast (ucast (v AND 0xff) :: uint8_t)"
    unfolding m by (rule disjunctive_add_eq_or) (auto simp: bit_eq_iff bit_simps)
  also have "\<dots> = v"
    unfolding m by (auto simp: bit_eq_iff bit_simps dest: bit_imp_le_length)
  finally show ?thesis .
qed

lemma put_success:
  "put v (buf, pos) = Inr (buf', pos') \<Longrightarrow>
   pos' = pos + 1 \<and> pos < length buf \<and> buf' = buf[pos := Some v]"
  by (auto simp: put_def poke_def split: if_splits)

lemma put_bytes_success:
  "put_bytes vs (buf, pos) = Inr (buf', pos') \<Longrightarrow>
   pos' = pos + length vs \<and> length buf' = length buf \<and> (\<forall>i<pos. buf' ! i = buf ! i)
   \<and> (vs \<noteq> [] \<longrightarrow> pos + length vs \<le> length buf)"
proof (induction vs arbitrary: buf pos)
  case Nil
  then show ?case by simp
next
  case (Cons v vs)
  from Cons.prems obtain b1 p1 where 1: "put v (buf, pos) = Inr (b1, p1)"
    and 2: "put_bytes vs (b1, p1) = Inr (buf', pos')"
    by (auto simp: ebind_eq_Inr)
  from put_success [OF 1] Cons.IH [OF 2] show ?case
    by (cases vs) auto
qed

lemma strcpy_success:
  "strcpy s (buf, pos) = Inr (buf', pos') \<Longrightarrow>
   pos' = pos \<and> length buf' = length buf \<and> (\<forall>i<pos. buf' ! i = buf ! i)
   \<and> pos + strlen s + 1 \<le> length buf"
  by (auto simp: strcpy_def ebind_eq_Inr strlen_def dest!: put_bytes_success)

lemma add_uint16_success:
  "add_uint16 v (buf, pos) = Inr (buf', pos') \<Longrightarrow>
   pos' = pos + 2 \<and> length buf' = length buf \<and> (\<forall>i<pos. buf' ! i = buf ! i)
   \<and> pos + 2 \<le> length buf
   \<and> buf' ! pos = Some (ucast (drop_bit 8 v)) \<and> buf' ! (pos + 1) = Some (ucast (v AND 0xff))"
  by (auto simp: add_uint16_def ebind_eq_Inr dest!: put_success)

lemma add_string_success:
  "add_string s (buf, pos) = Inr (buf', pos') \<Longrightarrow>
   pos' = pos + 2 + unat (of_nat (strlen s) :: uint16_t) \<and> length buf' = length buf
   \<and> (\<forall>i<pos. buf' ! i = buf ! i) \<and> pos + 2 + strlen s + 1 \<le> length buf"
  by (auto simp: add_string_def Let_def ebind_eq_Inr dest!: put_success strcpy_success)

lemma encode_length_loop_out_of_bounds:
  "\<not> off + unat sz < length buf \<Longrightarrow> encode_length_loop dat sz buf off = Inl OutOfBounds"
proof (induction dat sz buf off rule: encode_length_loop.induct)
  case (1 dat sz buf off)
  show ?case
  proof (cases "dat div 128 > 0")
    case True
    with 1 show ?thesis
      by (subst encode_length_loop.simps) (simp add: Let_def)
  next
    case False
    with 1 show ?thesis
      by (subst encode_length_loop.simps) (auto simp add: Let_def poke_def)
  qed
qed

lemma encode_length_success:
  "encode_length d buf off = Inr (n, buf') \<Longrightarrow>
   n = 1 \<and> length buf' = length buf \<and> (\<forall>i<off. buf' ! i = buf ! i) \<and> off < length buf"
  using encode_length_loop_result [of off 0 buf d] encode_length_loop_out_of_bounds [of off 0 buf d]
  by (cases "off < length buf") (auto simp: encode_length_def)

lemma frame_ident_written:
  "k + 1 < length (data m) \<Longrightarrow> data m ! k = Some (ucast (drop_bit 8 v)) \<Longrightarrow>
   data m ! (k + 1) = Some (ucast (v AND 0xff)) \<Longrightarrow> frame_ident k m = Some v"
  by (simp add: frame_ident_def uint16_bytes)

lemma unat_size_of_nat:
  "k < 256 \<Longrightarrow> unat (ucast (of_nat k :: uint32_t) :: uint8_t) = k"
  by (simp add: unsigned_of_nat take_bit_nat_eq_self unat_of_nat)

lemma wire_ident_written:
  "k + 1 < unat (size m) \<Longrightarrow> unat (size m) \<le> length (data m) \<Longrightarrow>
   data m ! k = Some (ucast (drop_bit 8 v)) \<Longrightarrow>
   data m ! (k + 1) = Some (ucast (v AND 0xff)) \<Longrightarrow> wire_ident k m = Some v"
  by (simp add: wire_ident_def wire_bytes_def uint16_bytes)

lemma mqtt_subscribe_step:
  assumes "mqtt_subscribe topic qos st = Inr (r, st')"
  shows "\<exists>m. trace st' = trace st @ [QueueSend m] \<and> frame_ident 2 m = Some (g_uuid st)
           \<and> wire_ident 2 m = Some (g_uuid st)
           \<and> g_uuid st' = g_uuid st + 1 \<and> r = ucast (g_uuid st + 1)"
proof -
  from assms obtain t where t: "topic = Some t"
    by (cases topic) (auto simp: mqtt_subscribe_def assert_param_def)
  from assms t obtain b1 p1 n b2 c3 b4 p4 b5 where
    1: "put TYPE_SUBSCRIBE (fresh_msg_data, 0) = Inr (b1, p1)"
    and 2: "encode_length (of_nat (strlen t) + 5) b1 p1 = Inr (n, b2)"
    and 3: "add_uint16 (g_uuid st) (b2, p1 + unat n) = Inr c3"
    and 4: "add_string t c3 = Inr (b4, p4)"
    and 5: "poke b4 p4 (qos AND 0x03) = Inr b5"
    and r: "r = ucast (g_uuid st + 1)"
    and s: "st' = mqtt_send_data \<lparr>size = ucast ((of_nat (strlen t) + 5 :: uint32_t) + ucast n + 1), data = b5\<rparr> (st\<lparr>g_uuid := g_uuid st + 1\<rparr>)"
    by (auto simp: mqtt_subscribe_def assert_param_eq_Inr ebind_eq_Inr deref_def Let_def
        mqtt_send_data_def emit_def)
  obtain b3 p3 where c3: "c3 = (b3, p3)" by (cases c3)
  from put_success [OF 1] have p1: "p1 = 1" and l1: "length b1 = length fresh_msg_data" by auto
  from encode_length_success [OF 2] have n: "n = 1" and l2: "length b2 = length b1" by auto
  from add_uint16_success [OF 3 [unfolded c3]] p1 n
  have p3: "p3 = 4" and l3: "length b3 = length b2"
    and hi: "b3 ! 2 = Some (ucast (drop_bit 8 (g_uuid st)))"
    and lo: "b3 ! 3 = Some (ucast (g_uuid st AND 0xff))"
    by (auto simp: numeral_eq_Suc)
  from add_string_success [OF 4 [unfolded c3]] p3
  have p4: "p4 \<ge> 6" and l4: "length b4 = length b3" and k4: "\<forall>i<4. b4 ! i = b3 ! i"
    and fit: "strlen t + 7 \<le> length b3"
    by auto
  from 5 have b5: "b5 = b4[p4 := Some (qos AND 0x03)]"
    by (auto simp: poke_def split: if_splits)
  have len: "length b5 = 128"
    using b5 l4 l3 l2 l1 by (simp add: fresh_msg_data_def MQTT_MAX_MSG_SIZE_def)
  have "b5 ! 2 = Some (ucast (drop_bit 8 (g_uuid st)))" "b5 ! 3 = Some (ucast (g_uuid st AND 0xff))"
    using b5 p4 k4 hi lo by auto
  note cells = this
  have e: "(of_nat (strlen t) + 5 :: uint32_t) + ucast n + 1 = of_nat (strlen t + 7)"
    by (simp add: n)
  have sz': "strlen t + 7 \<le> 128"
    using fit l3 l2 l1 by (simp add: fresh_msg_data_def MQTT_MAX_MSG_SIZE_def)
  have sz: "unat (ucast ((of_nat (strlen t) + 5 :: uint32_t) + ucast n + 1) :: uint8_t)
      = strlen t + 7"
    unfolding e using sz' by (intro unat_size_of_nat) simp
  from cells have "frame_ident 2 \<lparr>size = ucast ((of_nat (strlen t) + 5 :: uint32_t) + ucast n + 1), data = b5\<rparr> = Some (g_uuid st)"
    using len by (intro frame_ident_written) (simp_all add: numeral_eq_Suc)
  moreover from cells have "wire_ident 2 \<lparr>size = ucast ((of_nat (strlen t) + 5 :: uint32_t) + ucast n + 1), data = b5\<rparr> = Some (g_uuid st)"
    using len sz sz' by (intro wire_ident_written) simp_all
  ultimately show ?thesis
    using s r by (auto simp: mqtt_send_data_def emit_def)
qed


lemma mqtt_unsubscribe_step:
  assumes "mqtt_unsubscribe topic st = Inr st'"
  shows "\<exists>m. trace st' = trace st @ [QueueSend m] \<and> wire_ident 2 m = Some (g_uuid st)
           \<and> g_uuid st' = g_uuid st + 1"
proof -
  from assms obtain t where t: "topic = Some t"
    by (cases topic) (auto simp: mqtt_unsubscribe_def assert_param_def)
  from assms t obtain b1 p1 n b2 c3 b4 p4 where
    1: "put TYPE_SUBSCRIBE (fresh_msg_data, 0) = Inr (b1, p1)"
    and 2: "encode_length (of_nat (strlen t) + 4) b1 p1 = Inr (n, b2)"
    and 3: "add_uint16 (g_uuid st) (b2, p1 + unat n) = Inr c3"
    and 4: "add_string t c3 = Inr (b4, p4)"
    and s: "st' = mqtt_send_data \<lparr>size = ucast ((of_nat (strlen t) + 4 :: uint32_t) + ucast n + 1), data = b4\<rparr> (st\<lparr>g_uuid := g_uuid st + 1\<rparr>)"
    by (auto simp: mqtt_unsubscribe_def assert_param_eq_Inr ebind_eq_Inr deref_def Let_def)
  obtain b3 p3 where c3: "c3 = (b3, p3)" by (cases c3)
  from put_success [OF 1] have p1: "p1 = 1" and l1: "length b1 = length fresh_msg_data" by auto
  from encode_length_success [OF 2] have n: "n = 1" and l2: "length b2 = length b1" by auto
  from add_uint16_success [OF 3 [unfolded c3]] p1 n
  have p3: "p3 = 4" and l3: "length b3 = length b2"
    and hi: "b3 ! 2 = Some (ucast (drop_bit 8 (g_uuid st)))"
    and lo: "b3 ! 3 = Some (ucast (g_uuid st AND 0xff))"
    by (auto simp: numeral_eq_Suc)
  from add_string_success [OF 4 [unfolded c3]] p3
  have l4: "length b4 = length b3" and k4: "\<forall>i<4. b4 ! i = b3 ! i"
    and fit: "strlen t + 7 \<le> length b3"
    by auto
  have len: "length b4 = 128"
    using l4 l3 l2 l1 by (simp add: fresh_msg_data_def MQTT_MAX_MSG_SIZE_def)
  have "b4 ! 2 = Some (ucast (drop_bit 8 (g_uuid st)))" "b4 ! 3 = Some (ucast (g_uuid st AND 0xff))"
    using k4 hi lo by auto
  note cells = this
  have e: "(of_nat (strlen t) + 4 :: uint32_t) + ucast n + 1 = of_nat (strlen t + 6)"
    by (simp add: n)
  have sz': "strlen t + 7 \<le> 128"
    using fit l3 l2 l1 by (simp add: fresh_msg_data_def MQTT_MAX_MSG_SIZE_def)
  have sz: "unat (ucast ((of_nat (strlen t) + 4 :: uint32_t) + ucast n + 1) :: uint8_t)
      = strlen t + 6"
    unfolding e using sz' by (intro unat_size_of_nat) simp
  from cells have "wire_ident 2 \<lparr>size = ucast ((of_nat (strlen t) + 4 :: uint32_t) + ucast n + 1), data = b4\<rparr> = Some (g_uuid st)"
    using len sz sz' by (intro wire_ident_written) simp_all
  with s show ?thesis
    by (auto simp: mqtt_send_data_def emit_def)
qed

lemma mqtt_publish_step:
  assumes "mqtt_publish topic content dup qos retain st = Inr st'" and q: "qos \<noteq> 0"
  shows "\<exists>t m. topic = Some t \<and> trace st' = trace st @ [QueueSend m]
           \<and> wire_ident (4 + strlen t) m = Some (g_uuid st)
           \<and> g_uuid st' = g_uuid st + 1"
proof -
  from assms obtain t where t: "topic = Some t"
    by (cases topic) (auto simp: mqtt_publish_def assert_param_def)
  from assms obtain ct where ct: "content = Some ct"
    by (cases content) (auto simp: mqtt_publish_def assert_param_def)
  define pl :: uint32_t where "pl = of_nat (strlen t) + 2 + of_nat (strlen ct) + 2"
  from assms t ct obtain hdr b1 p1 n b2 c3 c4 b5 p5 where
    1: "put hdr (fresh_msg_data, 0) = Inr (b1, p1)"
    and 2: "encode_length pl b1 p1 = Inr (n, b2)"
    and 3: "add_string t (b2, p1 + unat n) = Inr c3"
    and 4: "add_uint16 (g_uuid st) c3 = Inr c4"
    and 5: "strcpy ct c4 = Inr (b5, p5)"
    and s: "st' = mqtt_send_data \<lparr>size = ucast (pl + ucast n + 1), data = b5\<rparr> (st\<lparr>g_uuid := g_uuid st + 1\<rparr>)"
    by (auto simp: mqtt_publish_def assert_param_eq_Inr ebind_eq_Inr deref_def Let_def pl_def)
  obtain b3 p3 where c3: "c3 = (b3, p3)" by (cases c3)
  obtain b4 p4 where c4: "c4 = (b4, p4)" by (cases c4)
  from put_success [OF 1] have p1: "p1 = 1" and l1: "length b1 = length fresh_msg_data" by auto
  from encode_length_success [OF 2] have n: "n = 1" and l2: "length b2 = length b1" by auto
  have l2': "length b2 = 128"
    using l2 l1 by (simp add: fresh_msg_data_def MQTT_MAX_MSG_SIZE_def)
  from add_string_success [OF 3 [unfolded c3]] p1 n l2'
  have bound: "strlen t < 125" and p3': "p3 = 2 + 2 + unat (of_nat (strlen t) :: uint16_t)"
    and l3: "length b3 = length b2"
    by auto
  from bound p3' have p3: "p3 = 4 + strlen t"
    by (simp add: unat_of_nat)
  from add_uint16_success [OF 4 [unfolded c3 c4]]
  have p4: "p4 = p3 + 2" and l4: "length b4 = length b3" and in4: "p3 + 2 \<le> length b3"
    and hi: "b4 ! p3 = Some (ucast (drop_bit 8 (g_uuid st)))"
    and lo: "b4 ! (p3 + 1) = Some (ucast (g_uuid st AND 0xff))"
    by auto
  from strcpy_success [OF 5 [unfolded c4]] p4
  have l5: "length b5 = length b4" and k5: "\<forall>i<p3 + 2. b5 ! i = b4 ! i"
    and fit: "p3 + 2 + strlen ct + 1 \<le> length b4"
    by auto
  have "b5 ! p3 = Some (ucast (drop_bit 8 (g_uuid st)))" "b5 ! (p3 + 1) = Some (ucast (g_uuid st AND 0xff))"
    using k5 hi lo by auto
  note cells = this
  have e: "pl + ucast n + 1 = of_nat (strlen t + strlen ct + 6)"
    by (simp add: n pl_def)
  have b128: "strlen t + strlen ct + 7 \<le> 128"
    using fit p3 l4 l3 l2' by simp
  have sz: "unat (ucast (pl + ucast n + 1) :: uint8_t) = strlen t + strlen ct + 6"
    unfolding e using b128 by (intro unat_size_of_nat) simp
  from cells have "wire_ident p3 \<lparr>size = ucast (pl + ucast n + 1), data = b5\<rparr> = Some (g_uuid st)"
    using sz b128 p3 l5 l4 l3 l2' by (intro wire_ident_written) simp_all
  with s t p3 show ?thesis
    by (auto simp: mqtt_send_data_def emit_def)
qed

lemma request_builder_step:
  assumes "request_builder r st = Inr st'" and "uses_ident r"
  shows "\<exists>m. trace st' = trace st @ [QueueSend m] \<and> wire_ident (ident_pos r) m = Some (g_uuid st)
           \<and> g_uuid st' = g_uuid st + 1"
proof (cases r)
  case (Publish topic content dup qos retain)
  with assms mqtt_publish_step [of topic content dup qos retain st st'] show ?thesis
    by auto
next
  case (Subscribe topic qos)
  with assms obtain x where "mqtt_subscribe topic qos st = Inr (x, st')"
    by (cases "mqtt_subscribe topic qos st") auto
  from mqtt_subscribe_step [OF this] Subscribe show ?thesis
    by auto
next
  case (Unsubscribe topic)
  with assms mqtt_unsubscribe_step [of topic st st'] show ?thesis
    by auto
qed

lemma run_requests_idents:
  "run_requests rs st = Inr st' \<Longrightarrow> \<forall>r\<in>set rs. uses_ident r \<Longrightarrow>
   \<exists>ms. trace st' = trace st @ map QueueSend ms \<and> length ms = length rs
      \<and> map2 (\<lambda>r m. wire_ident (ident_pos r) m) rs ms
          = map (\<lambda>k. Some (g_uuid st + of_nat k)) [0..<length rs]
      \<and> g_uuid st' = g_uuid st + of_nat (length rs)"
proof (induction rs arbitrary: st)
  case Nil
  then show ?case by simp
next
  case (Cons r rs)
  from Cons.prems(1) obtain st1 where 1: "request_builder r st = Inr st1"
    and 2: "run_requests rs st1 = Inr st'"
    by (auto simp: ebind_eq_Inr)
  from Cons.prems(2) have u: "uses_ident r" and us: "\<forall>r\<in>set rs. uses_ident r" by auto
  from request_builder_step [OF 1 u] obtain m where
    m: "trace st1 = trace st @ [QueueSend m]" "wire_ident (ident_pos r) m = Some (g_uuid st)"
       "g_uuid st1 = g_uuid st + 1"
    by auto
  from Cons.IH [OF 2 us] obtain ms where
    ms: "trace st' = trace st1 @ map QueueSend ms" "length ms = length rs"
        "map2 (\<lambda>r m. wire_ident (ident_pos r) m) rs ms
           = map (\<lambda>k. Some (g_uuid st1 + of_nat k)) [0..<length rs]"
        "g_uuid st' = g_uuid st1 + of_nat (length rs)"
    by auto
  have "map (\<lambda>k. Some (g_uuid st + of_nat k)) [0..<length (r # rs)]
      = Some (g_uuid st) # map (\<lambda>k. Some (g_uuid st1 + of_nat k)) [0..<length rs]"
    using m(3) by (simp add: upt_conv_Cons map_Suc_upt [symmetric] del: upt_Suc add: ac_simps)
  with m ms show ?case
    by (intro exI [of _ "m # ms"]) (simp add: ac_simps)
qed

subsection \<open>Well-formed inbound frames\<close>

lemma digit_last:
  assumes "n < 128"
  shows "(ucast ((of_nat n :: uint8_t) AND 0x7f) :: uint32_t) = of_nat n"
    and "(of_nat n :: uint8_t) AND 0x80 = 0"
proof -
  have m: "(0x7f :: uint8_t) = mask 7" by (simp add: mask_eq_exp_minus_1)
  have t: "take_bit 7 n = n" using assms by (simp add: take_bit_nat_eq_self)
  have "(of_nat n :: uint8_t) AND 0x7f = of_nat n"
    unfolding m by (simp flip: take_bit_eq_mask add: take_bit_of_nat t)
  moreover have "take_bit 8 n = n" using assms by (simp add: take_bit_nat_eq_self)
  ultimately show "(ucast ((of_nat n :: uint8_t) AND 0x7f) :: uint32_t) = of_nat n"
    by (simp add: unsigned_of_nat)
  have "n div 128 = 0" using assms by simp
  then have "\<not> bit n 7" by (simp add: bit_iff_odd)
  then have "\<not> bit (of_nat n :: uint8_t) 7"
    by (simp only: bit_of_nat_iff) simp
  then show "(of_nat n :: uint8_t) AND 0x80 = 0"
    using and_exp_eq_0_iff_not_bit [of "of_nat n :: uint8_t" 7] by simp
qed

lemma digit_more:
  "(ucast (((of_nat (n mod 128) :: uint8_t) OR 0x80) AND 0x7f) :: uint32_t) = of_nat (n mod 128)"
  "((of_nat (n mod 128) :: uint8_t) OR 0x80) AND 0x80 \<noteq> 0"
proof -
  have "((of_nat (n mod 128) :: uint8_t) OR 0x80) AND 0x7f = of_nat (n mod 128) AND 0x7f"
    by (simp add: bit.conj_disj_distrib2)
  with digit_last(1) [of "n mod 128"]
  show "(ucast (((of_nat (n mod 128) :: uint8_t) OR 0x80) AND 0x7f) :: uint32_t) = of_nat (n mod 128)"
    by simp
  have "bit ((of_nat (n mod 128) :: uint8_t) OR 0x80) 7"
    using bit_or_iff [of "of_nat (n mod 128) :: uint8_t" "2 ^ 7" 7] by (simp add: bit_exp_iff)
  then show "((of_nat (n mod 128) :: uint8_t) OR 0x80) AND 0x80 \<noteq> 0"
    using and_exp_eq_0_iff_not_bit [of "(of_nat (n mod 128) :: uint8_t) OR 0x80" 7] by simp
qed

lemma peek_at: "length pre = k \<Longrightarrow> peek (pre @ x # post) k = Inr x"
  by (auto simp: peek_def)

lemma mult_ok: "j \<le> 2 \<Longrightarrow> \<not> (128 ^ j * 128 :: uint32_t) > 128 * 128 * 128"
proof -
  assume "j \<le> 2"
  then consider "j = 0" | "j = 1" | "j = 2" by linarith
  then show ?thesis by cases simp_all
qed

lemma decode_step_more:
  "peek dat (Suc pos) = Inr b \<Longrightarrow> b AND 0x80 \<noteq> 0 \<Longrightarrow> \<not> (m * 128 > 128 * 128 * 128) \<Longrightarrow>
   decode_length_loop dat pos m val step
     = decode_length_loop dat (Suc pos) (m * 128) (val + ucast (b AND 0x7f) * m) (step + 1)"
  by (subst decode_length_loop.simps) (simp add: Let_def)

lemma decode_step_last:
  "peek dat (Suc pos) = Inr b \<Longrightarrow> b AND 0x80 = 0 \<Longrightarrow> \<not> (m * 128 > 128 * 128 * 128) \<Longrightarrow>
   decode_length_loop dat pos m val step = Inr (val + ucast (b AND 0x7f) * m, step + 1)"
  by (subst decode_length_loop.simps) (simp add: Let_def)

lemma decode_loop_spec:
  "length pre = Suc pos \<Longrightarrow> j + length (spec_encode_length n) \<le> 3 \<Longrightarrow>
   decode_length_loop (pre @ spec_encode_length n @ post) pos (128 ^ j) val step
     = Inr (val + of_nat n * 128 ^ j, step + of_nat (length (spec_encode_length n)))"
proof (induction n arbitrary: pre pos j val step rule: spec_encode_length.induct)
  case (1 n)
  show ?case
  proof (cases "n < 128")
    case True
    then have e: "spec_encode_length n = [of_nat n]"
      by (simp add: spec_encode_length.simps)
    from "1.prems" e have j: "j \<le> 2" by simp
    have p: "peek (pre @ [of_nat n] @ post) (Suc pos) = Inr (of_nat n)"
      using "1.prems"(1) by (simp add: peek_at)
    show ?thesis
      unfolding e decode_step_last [OF p digit_last(2) [OF True] mult_ok [OF j]]
      by (simp add: digit_last(1) [OF True])
  next
    case False
    define b :: uint8_t where "b = of_nat (n mod 128) OR 0x80"
    have e: "spec_encode_length n = b # spec_encode_length (n div 128)"
      using False unfolding b_def by (subst spec_encode_length.simps) simp
    have b1: "(ucast (b AND 0x7f) :: uint32_t) = of_nat (n mod 128)" and b2: "b AND 0x80 \<noteq> 0"
      unfolding b_def by (rule digit_more)+
    from "1.prems" e have j: "j \<le> 2"
      and j': "Suc j + length (spec_encode_length (n div 128)) \<le> 3" by simp_all
    have p: "peek (pre @ (b # spec_encode_length (n div 128)) @ post) (Suc pos) = Inr b"
      using "1.prems"(1) by (simp add: peek_at)
    have l: "length (pre @ [b]) = Suc (Suc pos)"
      using "1.prems"(1) by simp
    have n: "(of_nat n :: uint32_t) = of_nat (n mod 128) + of_nat (n div 128) * 128"
      by (metis mod_mult_div_eq mult.commute of_nat_add of_nat_mult of_nat_numeral)
    have "decode_length_loop (pre @ spec_encode_length n @ post) pos (128 ^ j) val step
        = decode_length_loop ((pre @ [b]) @ spec_encode_length (n div 128) @ post)
            (Suc pos) (128 ^ Suc j) (val + of_nat (n mod 128) * 128 ^ j) (step + 1)"
      unfolding e decode_step_more [OF p b2 mult_ok [OF j]] b1 by (simp add: mult.commute)
    also have "\<dots> = Inr (val + of_nat (n mod 128) * 128 ^ j + of_nat (n div 128) * 128 ^ Suc j,
                         step + 1 + of_nat (length (spec_encode_length (n div 128))))"
      using "1.IH" [OF False l j'] .
    finally show ?thesis
      unfolding e n by (simp add: algebra_simps)
  qed
qed


lemma spec_encode_length_short: "n < 16384 \<Longrightarrow> length (spec_encode_length n) \<le> 2"
proof (cases "n < 128")
  case True
  then show ?thesis by (subst spec_encode_length.simps) simp
next
  case False
  assume "n < 16384"
  then have "n div 128 < 128" by simp
  then have "length (spec_encode_length (n div 128)) = 1"
    by (subst spec_encode_length.simps) simp
  with False show ?thesis by (subst spec_encode_length.simps) simp
qed

lemma decode_length_spec:
  "n < 16384 \<Longrightarrow>
   decode_length (hdr # spec_encode_length n @ post)
     = Inr (of_nat n, of_nat (length (spec_encode_length n)))"
  using decode_loop_spec [where pre = "[hdr]" and pos = 0 and j = 0 and n = n and post = post
      and val = 0 and step = 0] spec_encode_length_short [of n]
  by (simp add: decode_length_def)

lemma read_uint16_at:
  "length pre = k \<Longrightarrow> read_uint16 (pre @ be16 w @ post) k = Inr w"
  by (simp add: read_uint16_def be16_def peek_def nth_append uint16_bytes)

lemma strncpy_from_at:
  "length pre = k \<Longrightarrow> n \<le> length s \<Longrightarrow>
   strncpy_from (pre @ s @ post) k n = Inr (c_str (take n s))"
proof (induction n arbitrary: pre k s)
  case 0
  then show ?case by (simp add: c_str_def)
next
  case (Suc n)
  then obtain x xs where s: "s = x # xs" by (cases s) auto
  have p: "peek (pre @ s @ post) k = Inr x"
    using Suc.prems(1) s by (simp add: peek_at)
  have l: "length (pre @ [x]) = k + 1" using Suc.prems(1) by simp
  have n: "n \<le> length xs" using Suc.prems(2) s by simp
  from Suc.IH [OF l n] show ?case
    using p s by (simp add: c_str_def)
qed

lemma process_publish_run:
  assumes "4 \<le> len" "decode_length dat = Inr (dl, step)" "peek dat 0 = Inr d0"
    "read_uint16 dat (unat step + 1) = Inr topic_len"
    "(if topic_len \<ge> 42 then strncpy_from dat (unat step + 1 + 2) 41
      else strncpy_from dat (unat step + 1 + 2) (unat topic_len)) = Inr topic"
    "drop_bit 1 d0 AND 0x03 = qos" "qos = 1 \<or> qos = 2"
    "read_uint16 dat (unat step + 1 + 2 + unat topic_len) = Inr ident"
  shows "process_publish dat len st =
     (let n = ucast (len - 2) - ucast step - ucast topic_len - 3;
          st1 = emit (Call_publish topic (take (unat n) (drop (unat step + 1 + 2 + unat topic_len + 2) dat)) n) st
      in if qos = 1 then mqtt_puback ident st1 else mqtt_pubrec ident st1)"
  using assms by (auto simp add: process_publish_def Let_def)


lemma length_be16 [simp]: "length (be16 w) = 2"
  by (simp add: be16_def)

lemma fresh_msg_data_4: "fresh_msg_data = [None, None, None, None] @ replicate 124 None"
  by code_simp

lemma ack_frame_spec:
  "ack_frame ty ident st =
     Inr (mqtt_send_data \<lparr>size = 4, data = map Some (spec_ack_frame ty ident) @ replicate 124 None\<rparr> st)"
  by (simp add: ack_frame_def add_uint16_def put_def poke_def fresh_msg_data_4
      spec_ack_frame_def be16_def)

lemma ucast_of_nat_8_32: "k < 256 \<Longrightarrow> (ucast (of_nat k :: uint8_t) :: uint32_t) = of_nat k"
  by (simp add: unsigned_of_nat take_bit_nat_eq_self)

lemma ucast_of_nat_16_32: "k < 65536 \<Longrightarrow> (ucast (of_nat k :: uint16_t) :: uint32_t) = of_nat k"
  by (simp add: unsigned_of_nat take_bit_nat_eq_self)

lemma publish_header_qos:
  "qos = 1 \<or> qos = 2 \<Longrightarrow>
   drop_bit 1 ((0x30 :: uint8_t) OR push_bit 3 (of_bool dup) OR push_bit 1 qos OR of_bool retain)
     AND 0x03 = qos"
  by (cases dup; cases retain; auto)

lemma process_publish_wf:
  assumes q: "qos = 1 \<or> qos = 2"
    and len: "length (spec_publish_frame dup qos retain topic ident payload) \<le> 255"
  shows "process_publish (spec_publish_frame dup qos retain topic ident payload @ rest)
            (of_nat (length (spec_publish_frame dup qos retain topic ident payload))) st
         = (let st1 = emit (Call_publish (c_str (take 41 topic)) payload (of_nat (length payload))) st
            in if qos = 1 then mqtt_puback ident st1 else mqtt_pubrec ident st1)"
proof -
  define T where "T = length topic"
  define P where "P = length payload"
  define body where "body = be16 (of_nat T) @ topic @ be16 ident @ payload"
  define enc where "enc = spec_encode_length (length body)"
  define L where "L = length enc"
  define hdr :: uint8_t
    where "hdr = 0x30 OR push_bit 3 (of_bool dup) OR push_bit 1 qos OR of_bool retain"
  define step :: uint8_t where "step = of_nat L"
  define dat where "dat = hdr # enc @ be16 (of_nat T) @ topic @ be16 ident @ payload @ rest"
  have F: "spec_publish_frame dup qos retain topic ident payload = hdr # enc @ body"
    using q by (auto simp: spec_publish_frame_def Let_def body_def enc_def hdr_def T_def)
  have dat: "spec_publish_frame dup qos retain topic ident payload @ rest = dat"
    by (simp add: F dat_def body_def)
  have dat': "dat = hdr # enc @ body @ rest"
    by (simp add: dat_def body_def)
  have lb: "length body = T + P + 4"
    by (simp add: body_def T_def P_def)
  have lF: "length (spec_publish_frame dup qos retain topic ident payload) = L + T + P + 5"
    by (simp add: F lb L_def)
  with len have bound: "L + T + P + 5 \<le> 255" by simp
  then have "length body < 16384" using lb by simp
  from decode_length_spec [OF this, of hdr "body @ rest"] spec_encode_length_short [OF this]
  have dl: "decode_length dat = Inr (of_nat (length body), step)" and L2: "L \<le> 2"
    by (simp_all add: dat' enc_def L_def step_def)
  have us: "unat step = L"
    using L2 by (simp add: step_def unat_of_nat)
  have ut: "unat (of_nat T :: uint16_t) = T"
    using bound by (simp add: unat_of_nat)
  have p0: "peek dat 0 = Inr hdr"
    by (simp add: dat_def peek_def)
  have r1: "read_uint16 dat (unat step + 1) = Inr (of_nat T)"
    using read_uint16_at [of "hdr # enc" "L + 1" "of_nat T" "topic @ be16 ident @ payload @ rest"]
    by (simp add: dat_def us L_def)
  have cmp: "(42 \<le> (of_nat T :: uint16_t)) \<longleftrightarrow> 42 \<le> T"
    by (simp add: word_le_nat_alt ut)
  have sn: "(if (of_nat T :: uint16_t) \<ge> 42 then strncpy_from dat (unat step + 1 + 2) 41
             else strncpy_from dat (unat step + 1 + 2) (unat (of_nat T :: uint16_t)))
            = Inr (c_str (take 41 topic))"
  proof (cases "42 \<le> T")
    case True
    with strncpy_from_at [of "hdr # enc @ be16 (of_nat T)" "L + 1 + 2" 41 topic "be16 ident @ payload @ rest"]
    show ?thesis
      by (simp add: cmp dat_def us L_def T_def [symmetric])
  next
    case False
    with strncpy_from_at [of "hdr # enc @ be16 (of_nat T)" "L + 1 + 2" T topic "be16 ident @ payload @ rest"]
    show ?thesis
      by (simp add: cmp ut dat_def us L_def T_def [symmetric])
  qed
  have qq: "drop_bit 1 hdr AND 0x03 = qos"
    unfolding hdr_def using q by (rule publish_header_qos)
  have r2: "read_uint16 dat (unat step + 1 + 2 + unat (of_nat T :: uint16_t)) = Inr ident"
    using read_uint16_at [of "hdr # enc @ be16 (of_nat T) @ topic" "L + 1 + 2 + T" ident "payload @ rest"]
    by (simp add: dat_def us ut L_def T_def [symmetric])
  have w8: "(of_nat (L + T + P + 5) :: uint8_t) - 2 = of_nat (L + T + P + 3)"
    by simp
  have u8: "unat (of_nat (L + T + P + 5) :: uint8_t) = L + T + P + 5"
    using bound by (simp only: unat_of_nat) simp
  have l4: "4 \<le> (of_nat (L + T + P + 5) :: uint8_t)"
    unfolding word_le_nat_alt u8 by simp
  have a: "(ucast (of_nat (L + T + P + 3) :: uint8_t) :: uint32_t) = of_nat (L + T + P + 3)"
    using bound by (intro ucast_of_nat_8_32) simp
  have b: "(ucast step :: uint32_t) = of_nat L"
    unfolding step_def using L2 by (intro ucast_of_nat_8_32) simp
  have c: "(ucast (of_nat T :: uint16_t) :: uint32_t) = of_nat T"
    using bound by (intro ucast_of_nat_16_32) simp
  have n: "ucast ((of_nat (L + T + P + 5) :: uint8_t) - 2) - ucast step
            - ucast (of_nat T :: uint16_t) - 3 = (of_nat P :: uint32_t)"
    unfolding w8 a b c by simp
  have un: "unat (of_nat P :: uint32_t) = P"
    using bound by (simp add: unat_of_nat)
  have dr: "take P (drop (unat step + 1 + 2 + unat (of_nat T :: uint16_t) + 2) dat) = payload"
    by (simp add: us ut dat_def L_def T_def [symmetric] P_def [symmetric])
  show ?thesis
    unfolding dat lF
    by (subst process_publish_run [OF l4 dl p0 r1 sn qq q r2])
       (simp only: Let_def n un dr P_def [symmetric])
qed


lemma process_pubrel_wf:
  "process_pubrel (spec_ack_frame TYPE_PUBREL ident @ rest) 4 st
     = ebind (mqtt_pubcomp ident st) (\<lambda>st. Inr (emit (Call_pubrel ident) st))"
proof -
  define dat where "dat = spec_ack_frame TYPE_PUBREL ident @ rest"
  have d: "dat = [TYPE_PUBREL, 0x02] @ be16 ident @ rest"
    by (simp add: dat_def spec_ack_frame_def)
  have p: "peek dat (Suc 0) = Inr 0x02"
    by (simp add: d peek_def)
  have dl: "decode_length dat = Inr (2, 1)"
    unfolding decode_length_def
    by (subst decode_step_last [OF p]) simp_all
  have r: "read_uint16 dat 2 = Inr ident"
    unfolding d by (rule read_uint16_at) simp
  show ?thesis
    unfolding dat_def [symmetric]
    by (simp add: process_pubrel_def dl r assert_param_def)
qed

section \<open>The claims\<close>

text \<open>
  C1. Remaining-length round trip for the values 0, 127, 128, 16383, 16384 and 2097151:
  decoding what the encoder wrote should give the value and the encoder's byte count.
  On the code the encoder stores the last base-128 digit only and returns 1, so the round
  trip gives the value back for 0 and 127 and gives the top digit for the other four:
  128 comes back as 1, 16383 as 127, 16384 as 1, 2097151 as 127.
\<close>

theorem length_roundtrip_values:
  "length_roundtrip 0 = Inr ((0, 1), 1) \<and>
   length_roundtrip 127 = Inr ((127, 1), 1) \<and>
   length_roundtrip 128 = Inr ((1, 1), 1) \<and>
   length_roundtrip 16383 = Inr ((127, 1), 1) \<and>
   length_roundtrip 16384 = Inr ((1, 1), 1) \<and>
   length_roundtrip 2097151 = Inr ((127, 1), 1)"
  by code_simp

text \<open>
  C2. The UNSUBSCRIBE builder's frame should start with the byte 0xa2. On the code
  \<open>mqtt_unsubscribe\<close> writes \<open>TYPE_SUBSCRIBE\<close>: unsubscribing from the topic "a" with the
  counter at 0 queues the frame 82 05 00 00 00 01 61.
\<close>

theorem mqtt_unsubscribe_type_byte:
  "map_sum id sent_frames (mqtt_unsubscribe (Some [0x61]) initial_state) =
     Inr [[Some 0x82, Some 0x05, Some 0x00, Some 0x00, Some 0x00, Some 0x01, Some 0x61]]"
  by code_simp

text \<open>
  C3. The payload length computed for CONNECT should equal the number of payload bytes
  the builder writes, whether or not a client identifier is given. Without a client
  identifier (clean session set, no will, no user name, no password)
  \<open>calculate_connect_payload_len\<close> gives 10, while the builder writes 12 bytes behind the
  remaining-length byte (it adds a zero 2-byte length for the missing identifier): the
  cursor ends at 14, and the queued frame of size 12 leaves the last two bytes out.
\<close>

theorem connect_without_client_id:
  "connect_fill \<lparr>client_id = None,
        flag = \<lparr>flag_byte = 0x02, clear_session = 1, will_flag = 0, will_qos = 0,
                will_retain = 0, password_flag = 0, username_flag = 0\<rparr>,
        alive_time = 60, will_topic = None, will_msg = None,
        username = None, password = None\<rparr>
     = Inr (10, 1,
            [Some 0x10, Some 0x0a, Some 0x00, Some 0x04, Some 0x4d, Some 0x51, Some 0x54,
             Some 0x54, Some 0x04, Some 0x02, Some 0x00, Some 0x3c, Some 0x00, Some 0x00]
            @ replicate 114 None,
            14) \<and>
   map_sum id sent_frames
     (mqtt_connect \<lparr>client_id = None,
        flag = \<lparr>flag_byte = 0x02, clear_session = 1, will_flag = 0, will_qos = 0,
                will_retain = 0, password_flag = 0, username_flag = 0\<rparr>,
        alive_time = 60, will_topic = None, will_msg = None,
        username = None, password = None\<rparr> initial_state)
     = Inr [[Some 0x10, Some 0x0a, Some 0x00, Some 0x04, Some 0x4d, Some 0x51, Some 0x54,
             Some 0x54, Some 0x04, Some 0x02, Some 0x00, Some 0x3c]]"
  by code_simp

text \<open>
  C4, as amended. On the WiFi transport the handler that runs is that of the first table
  entry whose type constant equals the frame's first byte masked with 0xF0 or equals the
  first byte itself, whatever the entry (not PUBLISH alone), and no later entry is tried;
  if no entry matches, nothing happens. A frame whose first byte is one of the table's
  type constants is handled on the cellular transport as it is on WiFi.
\<close>

theorem wifi_dispatch_rule:
  "dat \<noteq> [] \<Longrightarrow>
   vMqttRecv_dispatch MODE_NET_WIFI dat len st =
     (case find (\<lambda>f. type f = (hd dat AND 0xf0) \<or> type f = hd dat) funcs of
        None \<Rightarrow> Inr st
      | Some f \<Rightarrow> process f dat (ucast len) st)
   \<and> (hd dat \<in> type ` set funcs \<longrightarrow>
        vMqttRecv_dispatch MODE_NET_M26 dat len st = vMqttRecv_dispatch MODE_NET_WIFI dat len st)"
proof -
  assume ne: "dat \<noteq> []"
  have w: "vMqttRecv_dispatch MODE_NET_WIFI dat len st =
     (case find (\<lambda>f. type f = (hd dat AND 0xf0) \<or> type f = hd dat) funcs of
        None \<Rightarrow> Inr st
      | Some f \<Rightarrow> process f dat (ucast len) st)"
    by (simp add: vMqttRecv_dispatch_def scan_wifi_find [OF ne])
  have m: "vMqttRecv_dispatch MODE_NET_M26 dat len st =
     (case find (\<lambda>f. type f = hd dat) funcs of
        None \<Rightarrow> Inr st
      | Some f \<Rightarrow> process f dat (ucast len) st)"
    by (simp add: vMqttRecv_dispatch_def scan_m26_find [OF ne])
  have eq: "find (\<lambda>f. type f = (hd dat AND 0xf0) \<or> type f = hd dat) funcs
          = find (\<lambda>f. type f = hd dat) funcs" if "hd dat \<in> type ` set funcs"
    using that by (auto simp: funcs_def TYPE_defs)
  show ?thesis
    unfolding m using w eq by simp
qed

theorem wifi_dispatch_rule_witness:
  "[0x62, 0x02, 0x00, 0x09 :: uint8_t] \<noteq> [] \<and>
   hd [0x62, 0x02, 0x00, 0x09 :: uint8_t] \<in> type ` set funcs \<and>
   vMqttRecv_dispatch MODE_NET_WIFI [0x62, 0x02, 0x00, 0x09] 4 initial_state =
     process_pubrel [0x62, 0x02, 0x00, 0x09] 4 initial_state \<and>
   vMqttRecv_dispatch MODE_NET_M26 [0x62, 0x02, 0x00, 0x09] 4 initial_state =
     vMqttRecv_dispatch MODE_NET_WIFI [0x62, 0x02, 0x00, 0x09] 4 initial_state"
  using wifi_dispatch_rule [of "[0x62, 0x02, 0x00, 0x09]" 4 initial_state]
  by (simp add: funcs_def TYPE_defs)

text \<open>
  The claim as stated fails twice. On WiFi the byte 0x21 is not the CONNACK constant, yet
  the frame 21 02 00 00 runs the CONNACK handler. On the cellular transport the PUBLISH
  frame 31 03 00 01 61 (retain set) runs no handler, while on WiFi it runs the PUBLISH
  handler.
\<close>

theorem dispatch_rule_counterexample:
  "vMqttRecv_dispatch MODE_NET_WIFI [0x21, 0x02, 0x00, 0x00] 4 initial_state =
     Inr \<lparr>g_uuid = 0, trace = [Call_connack 0x00]\<rparr> \<and>
   vMqttRecv_dispatch MODE_NET_M26 [0x31, 0x03, 0x00, 0x01, 0x61] 5 initial_state =
     Inr \<lparr>g_uuid = 0, trace = []\<rparr> \<and>
   vMqttRecv_dispatch MODE_NET_WIFI [0x31, 0x03, 0x00, 0x01, 0x61] 5 initial_state =
     Inr \<lparr>g_uuid = 0, trace = [Call_publish [0x61] [] 0]\<rparr>"
  by code_simp

text \<open>
  C5, as amended. An inbound frame shorter than 4 bytes whose first byte does not select
  the PINGRESP entry is ignored on either transport: the state, and with it the record of
  callbacks and queued frames, is unchanged. A PINGRESP frame invokes the \<open>pingresp\<close>
  callback whatever its length is.
\<close>

theorem short_frame_dispatch:
  "(len < 4 \<and> dat \<noteq> [] \<and> hd dat AND 0xf0 \<noteq> TYPE_PINGRESP
      \<longrightarrow> vMqttRecv_dispatch mode dat len st = Inr st)
   \<and> vMqttRecv_dispatch mode (TYPE_PINGRESP # rest) len st = Inr (emit Call_pingresp st)"
proof (intro conjI impI)
  assume a: "len < 4 \<and> dat \<noteq> [] \<and> hd dat AND 0xf0 \<noteq> TYPE_PINGRESP"
  then have s: "(ucast len :: uint8_t) < 4" by (simp add: ucast_len_short)
  from a have ne: "dat \<noteq> []" by simp
  from a have k: "hd dat AND 0xf0 \<noteq> 0xd0" by (simp add: TYPE_PINGRESP_def)
  then have m: "hd dat \<noteq> 0xd0" by auto
  show "vMqttRecv_dispatch mode dat len st = Inr st"
    using k m by (simp add: vMqttRecv_dispatch_def scan_wifi_find [OF ne] scan_m26_find [OF ne]
        funcs_def short_handlers [OF s] TYPE_defs)
next
  show "vMqttRecv_dispatch mode (TYPE_PINGRESP # rest) len st = Inr (emit Call_pingresp st)"
    by (simp add: vMqttRecv_dispatch_def funcs_def peek_def TYPE_defs process_pingresp_def)
qed

theorem short_frame_dispatch_witness:
  "(3 :: uint16_t) < 4 \<and> [0x32, 0x01, 0x00 :: uint8_t] \<noteq> [] \<and>
   hd [0x32, 0x01, 0x00 :: uint8_t] AND 0xf0 \<noteq> TYPE_PINGRESP \<and>
   vMqttRecv_dispatch MODE_NET_WIFI [0x32, 0x01, 0x00] 3 initial_state = Inr initial_state"
  using short_frame_dispatch [of 3 "[0x32, 0x01, 0x00]" MODE_NET_WIFI initial_state]
  by (simp add: TYPE_PINGRESP_def)

text \<open>
  The claim as stated fails for PINGRESP: the 2-byte frame d0 00 invokes the \<open>pingresp\<close>
  callback on both transports.
\<close>

theorem short_pingresp_counterexample:
  "vMqttRecv_dispatch MODE_NET_WIFI [0xd0, 0x00] 2 initial_state =
     Inr \<lparr>g_uuid = 0, trace = [Call_pingresp]\<rparr> \<and>
   vMqttRecv_dispatch MODE_NET_M26 [0xd0, 0x00] 2 initial_state =
     Inr \<lparr>g_uuid = 0, trace = [Call_pingresp]\<rparr>"
  by code_simp

text \<open>
  C6, as amended. The remaining-length encoder has no failure result: for every 32-bit
  value, also one above 2097151, and every place inside the array it returns a normal
  byte count \<open>n\<close> between 1 and 4, never an error or a sentinel, having stored \<open>n\<close> bytes in
  the cells from that place on, the last of them with the continuation bit clear, and
  having left every other cell of the array as it was.
\<close>

theorem encode_length_never_fails:
  "off < length buf \<Longrightarrow>
   \<exists>n bs. encode_length v buf off
            = Inr (n, take off buf @ map Some bs @ drop (off + unat n) buf)
      \<and> 1 \<le> n \<and> n \<le> 4 \<and> length bs = unat n \<and> last bs < 0x80"
proof -
  assume off: "off < length buf"
  with encode_length_loop_result [of off 0 buf v] obtain b where
    b: "b < 0x80" and e: "encode_length v buf off = Inr (1, buf[off := Some b])"
    by (auto simp: encode_length_def)
  have "buf[off := Some b] = take off buf @ map Some [b] @ drop (off + unat (1 :: uint8_t)) buf"
    using off by (simp add: upd_conv_take_nth_drop)
  with b e show ?thesis
    by (intro exI [of _ 1] exI [of _ "[b]"]) simp
qed

theorem encode_length_never_fails_witness:
  "(1::nat) < length [Some (0x10 :: uint8_t), None] \<and>
   (\<exists>n bs. encode_length 2097152 [Some 0x10, None] 1
            = Inr (n, take 1 [Some 0x10, None] @ map Some bs @ drop (1 + unat n) [Some 0x10, None])
      \<and> 1 \<le> n \<and> n \<le> 4 \<and> length bs = unat n \<and> last bs < 0x80)"
  using encode_length_never_fails [of 1 "[Some 0x10, None]" 2097152] by simp

text \<open>
  The claim as stated fails at 2097152: the encoder returns the byte count 1, having
  stored the single byte 0x01 behind the type byte.
\<close>

theorem encode_length_overflow_counterexample:
  "encode_length 2097152 [Some 0x10, None, None, None, None, None] 1 =
     Inr (1, [Some 0x10, Some 0x01, None, None, None, None])"
  by code_simp

text \<open>
  C9. The identifier generator is the one 16-bit counter \<open>g_uuid\<close>, 0 in the initial
  state. Each call of the publish builder with a non-zero qos, of the subscribe builder and
  of the unsubscribe builder writes the counter's value into its frame and adds one to
  the counter afterwards. So a run of such calls that all succeed queues one frame per
  call, the bytes of frame number k that reach the wire carry the counter's starting value
  plus k in 16-bit arithmetic (65535 is followed by 0) at the identifier's place, and the
  counter ends at the starting value plus the number of calls.
\<close>

theorem identifiers_consecutive:
  "run_requests rs st = Inr st' \<Longrightarrow> \<forall>r\<in>set rs. uses_ident r \<Longrightarrow>
   g_uuid initial_state = 0 \<and>
   (\<exists>ms. trace st' = trace st @ map QueueSend ms \<and> length ms = length rs
      \<and> map2 (\<lambda>r m. wire_ident (ident_pos r) m) rs ms
          = map (\<lambda>k. Some (g_uuid st + of_nat k)) [0..<length rs]
      \<and> g_uuid st' = g_uuid st + of_nat (length rs))"
  using run_requests_idents [of rs st st'] by (simp add: initial_state_def)

theorem identifiers_consecutive_witness:
  "run_requests [Subscribe (Some [0x61]) 1, Publish (Some [0x61]) (Some [0x62]) 0 1 0,
                 Unsubscribe (Some [0x61])] \<lparr>g_uuid = 65535, trace = []\<rparr>
     = Inr (projr (run_requests [Subscribe (Some [0x61]) 1,
                                  Publish (Some [0x61]) (Some [0x62]) 0 1 0,
                                  Unsubscribe (Some [0x61])] \<lparr>g_uuid = 65535, trace = []\<rparr>)) \<and>
   uses_ident (Subscribe (Some [0x61]) 1) \<and>
   uses_ident (Publish (Some [0x61]) (Some [0x62]) 0 1 0) \<and>
   uses_ident (Unsubscribe (Some [0x61])) \<and>
   (\<exists>ms. trace (projr (run_requests [Subscribe (Some [0x61]) 1,
                                      Publish (Some [0x61]) (Some [0x62]) 0 1 0,
                                      Unsubscribe (Some [0x61])] \<lparr>g_uuid = 65535, trace = []\<rparr>))
            = map QueueSend ms
      \<and> map2 (\<lambda>r m. wire_ident (ident_pos r) m)
            [Subscribe (Some [0x61]) 1, Publish (Some [0x61]) (Some [0x62]) 0 1 0,
             Unsubscribe (Some [0x61])] ms
          = [Some 65535, Some 0, Some 1]
      \<and> g_uuid (projr (run_requests [Subscribe (Some [0x61]) 1,
                                      Publish (Some [0x61]) (Some [0x62]) 0 1 0,
                                      Unsubscribe (Some [0x61])] \<lparr>g_uuid = 65535, trace = []\<rparr>)) = 2)"
proof -
  define rs where "rs = [Subscribe (Some [0x61]) 1, Publish (Some [0x61]) (Some [0x62]) 0 1 0,
                         Unsubscribe (Some [0x61])]"
  define st0 where "st0 = \<lparr>g_uuid = 65535, trace = []\<rparr>"
  define st' where "st' = projr (run_requests rs st0)"
  have h: "run_requests rs st0 = Inr st'"
    unfolding rs_def st0_def st'_def by code_simp
  have u: "\<forall>r\<in>set rs. uses_ident r"
    unfolding rs_def by simp
  have n: "map (\<lambda>k. Some (g_uuid st0 + of_nat k)) [0..<length rs] = [Some 65535, Some 0, Some 1]"
    unfolding rs_def st0_def by simp
  have g: "g_uuid st0 + of_nat (length rs) = 2"
    unfolding rs_def st0_def by simp
  have t: "trace st0 = []"
    unfolding st0_def by simp
  from identifiers_consecutive [OF h u] obtain ms where
    "trace st' = trace st0 @ map QueueSend ms"
    "map2 (\<lambda>r m. wire_ident (ident_pos r) m) rs ms
       = map (\<lambda>k. Some (g_uuid st0 + of_nat k)) [0..<length rs]"
    "g_uuid st' = g_uuid st0 + of_nat (length rs)"
    by (elim conjE exE)
  then have "\<exists>ms. trace st' = map QueueSend ms
      \<and> map2 (\<lambda>r m. wire_ident (ident_pos r) m) rs ms = [Some 65535, Some 0, Some 1]
      \<and> g_uuid st' = 2"
    unfolding n g t by auto
  moreover have "uses_ident (Subscribe (Some [0x61]) 1)"
    "uses_ident (Publish (Some [0x61]) (Some [0x62]) 0 1 0)"
    "uses_ident (Unsubscribe (Some [0x61]))"
    by simp_all
  ultimately show ?thesis
    using h unfolding rs_def st0_def st'_def by (intro conjI)
qed

text \<open>
  C10, as amended. \<open>mqtt_subscribe\<close> returns a \<open>uint8_t\<close>: the value returned is the low
  byte of the counter after the increment, that is the identifier written into the
  SUBSCRIBE frame plus one, modulo 256.
\<close>

theorem mqtt_subscribe_return_value:
  "mqtt_subscribe topic qos st = Inr (r, st') \<Longrightarrow>
   \<exists>m. trace st' = trace st @ [QueueSend m] \<and> frame_ident 2 m = Some (g_uuid st)
      \<and> r = ucast (g_uuid st + 1)"
  using mqtt_subscribe_step [of topic qos st r st'] by auto

theorem mqtt_subscribe_return_value_witness:
  "mqtt_subscribe (Some [0x61]) 1 \<lparr>g_uuid = 255, trace = []\<rparr>
     = Inr (0, \<lparr>g_uuid = 256, trace = [QueueSend \<lparr>size = 8, data =
          [Some 0x82, Some 0x06, Some 0x00, Some 0xff, Some 0x00, Some 0x01, Some 0x61, Some 0x01]
          @ replicate 120 None\<rparr>]\<rparr>) \<and>
   (\<exists>m. [QueueSend \<lparr>size = 8, data =
          [Some 0x82, Some 0x06, Some 0x00, Some 0xff, Some 0x00, Some 0x01, Some 0x61, Some 0x01]
          @ replicate 120 None\<rparr>] = [QueueSend m] \<and> frame_ident 2 m = Some 255) \<and>
   (0 :: uint8_t) = ucast (255 + 1 :: uint16_t)"
proof -
  have h: "mqtt_subscribe (Some [0x61]) 1 \<lparr>g_uuid = 255, trace = []\<rparr>
     = Inr (0, \<lparr>g_uuid = 256, trace = [QueueSend \<lparr>size = 8, data =
          [Some 0x82, Some 0x06, Some 0x00, Some 0xff, Some 0x00, Some 0x01, Some 0x61, Some 0x01]
          @ replicate 120 None\<rparr>]\<rparr>)"
    by code_simp
  have c: "(0 :: uint8_t) = ucast (255 + 1 :: uint16_t)"
    by simp
  from mqtt_subscribe_return_value [OF h] have
    "\<exists>m. [QueueSend \<lparr>size = 8, data =
          [Some 0x82, Some 0x06, Some 0x00, Some 0xff, Some 0x00, Some 0x01, Some 0x61, Some 0x01]
          @ replicate 120 None\<rparr>] = [QueueSend m] \<and> frame_ident 2 m = Some 255"
    by simp
  with h c show ?thesis by (intro conjI)
qed

text \<open>
  The claim as stated fails when the identifier plus one does not fit a byte: with the
  counter at 255 the frame carries the identifier 255 and the call returns 0, which is
  not 256.
\<close>

theorem mqtt_subscribe_return_counterexample:
  "map_sum id (\<lambda>(r, st'). (r, sent_idents 2 st'))
     (mqtt_subscribe (Some [0x61]) 1 \<lparr>g_uuid = 255, trace = []\<rparr>) = Inr (0, [Some 255]) \<and>
   (ucast (0 :: uint8_t) :: uint16_t) \<noteq> 255 + 1"
proof
  show "map_sum id (\<lambda>(r, st'). (r, sent_idents 2 st'))
     (mqtt_subscribe (Some [0x61]) 1 \<lparr>g_uuid = 255, trace = []\<rparr>) = Inr (0, [Some 255])"
    by code_simp
  show "(ucast (0 :: uint8_t) :: uint16_t) \<noteq> 255 + 1"
    by simp
qed

text \<open>
  C7, as amended. Processing a well-formed inbound PUBLISH frame with qos 1 and identifier
  \<open>ident\<close> (any dup and retain flag, any topic and payload, the frame no longer than the
  255 bytes a handler's length argument can express, followed in the receive array by any
  bytes) invokes the \<open>publish\<close> callback once, with the payload and its length and with
  the topic as the handler's 42-byte array holds it as a C string, which is the topic's
  first 41 bytes at most, up to a zero byte if it has one (the whole topic when it has no
  zero byte and at most 41 bytes); then it queues one PUBACK frame with the same
  identifier, and nothing else happens.
\<close>

theorem inbound_publish_qos1:
  "length (spec_publish_frame dup 1 retain topic ident payload) \<le> 255 \<Longrightarrow>
   process_publish (spec_publish_frame dup 1 retain topic ident payload @ rest)
      (of_nat (length (spec_publish_frame dup 1 retain topic ident payload))) st
   = Inr (st\<lparr>trace := trace st @
            [Call_publish (c_str (take 41 topic)) payload (of_nat (length payload)),
             QueueSend \<lparr>size = 4,
                        data = map Some (spec_ack_frame TYPE_PUBACK ident) @ replicate 124 None\<rparr>]\<rparr>)"
  using process_publish_wf [of 1 dup retain topic ident payload rest st]
  by (simp add: mqtt_puback_def ack_frame_spec mqtt_send_data_def emit_def)

theorem inbound_publish_qos1_witness:
  "length (spec_publish_frame False 1 False [0x61] 7 [0x62, 0x63]) \<le> 255 \<and>
   spec_publish_frame False 1 False [0x61] 7 [0x62, 0x63]
     = [0x32, 0x07, 0x00, 0x01, 0x61, 0x00, 0x07, 0x62, 0x63] \<and>
   process_publish [0x32, 0x07, 0x00, 0x01, 0x61, 0x00, 0x07, 0x62, 0x63] 9 initial_state
     = Inr \<lparr>g_uuid = 0, trace =
            [Call_publish [0x61] [0x62, 0x63] 2,
             QueueSend \<lparr>size = 4,
                        data = [Some 0x40, Some 0x02, Some 0x00, Some 0x07] @ replicate 124 None\<rparr>]\<rparr>"
proof -
  have fr: "spec_publish_frame False 1 False [0x61] 7 [0x62, 0x63]
     = [0x32, 0x07, 0x00, 0x01, 0x61, 0x00, 0x07, 0x62, 0x63]"
    by code_simp
  have l: "length (spec_publish_frame False 1 False [0x61] 7 [0x62, 0x63]) \<le> 255"
    unfolding fr by simp
  have t: "c_str (take 41 [0x61 :: uint8_t]) = [0x61]"
    by (simp add: c_str_def)
  have a: "map Some (spec_ack_frame TYPE_PUBACK 7) = [Some 0x40, Some 0x02, Some 0x00, Some 0x07]"
    by code_simp
  from inbound_publish_qos1 [OF l, of "[]" initial_state]
  have "process_publish [0x32, 0x07, 0x00, 0x01, 0x61, 0x00, 0x07, 0x62, 0x63] 9 initial_state
     = Inr \<lparr>g_uuid = 0, trace =
            [Call_publish [0x61] [0x62, 0x63] 2,
             QueueSend \<lparr>size = 4,
                        data = [Some 0x40, Some 0x02, Some 0x00, Some 0x07] @ replicate 124 None\<rparr>]\<rparr>"
    unfolding fr t a by (simp add: initial_state_def)
  with l fr show ?thesis by (intro conjI)
qed

text \<open>
  The claim as stated fails for a topic longer than the handler's array: for the
  well-formed frame of 52 bytes with qos 1, identifier 7, a topic of 45 bytes \<open>a\<close> and the
  payload \<open>b\<close>, the callback gets a topic of 41 bytes, not the frame's topic.
\<close>

theorem inbound_publish_long_topic_counterexample:
  "process_publish (spec_publish_frame False 1 False (replicate 45 0x61) 7 [0x62]) 52
      initial_state
     = Inr \<lparr>g_uuid = 0, trace =
            [Call_publish (replicate 41 0x61) [0x62] 1,
             QueueSend \<lparr>size = 4,
                        data = [Some 0x40, Some 0x02, Some 0x00, Some 0x07] @ replicate 124 None\<rparr>]\<rparr> \<and>
   length (spec_publish_frame False 1 False (replicate 45 0x61) 7 [0x62]) = 52 \<and>
   replicate 41 (0x61 :: uint8_t) \<noteq> replicate 45 0x61"
proof (intro conjI)
  show "process_publish (spec_publish_frame False 1 False (replicate 45 0x61) 7 [0x62]) 52
      initial_state
     = Inr \<lparr>g_uuid = 0, trace =
            [Call_publish (replicate 41 0x61) [0x62] 1,
             QueueSend \<lparr>size = 4,
                        data = [Some 0x40, Some 0x02, Some 0x00, Some 0x07] @ replicate 124 None\<rparr>]\<rparr>"
    by code_simp
  show "length (spec_publish_frame False 1 False (replicate 45 0x61) 7 [0x62]) = 52"
    by code_simp
  show "replicate 41 (0x61 :: uint8_t) \<noteq> replicate 45 0x61"
    by (simp add: replicate_eq_replicate)
qed

text \<open>
  C8. Processing a well-formed inbound PUBLISH frame with qos 2 and identifier \<open>ident\<close>
  invokes the \<open>publish\<close> callback and then queues one PUBREC frame with that identifier;
  processing a well-formed inbound PUBREL frame with identifier \<open>ident'\<close> queues one
  PUBCOMP frame with that identifier and only then invokes the \<open>pubrel\<close> callback with it.
\<close>

theorem inbound_qos2_handshake:
  "length (spec_publish_frame dup 2 retain topic ident payload) \<le> 255 \<Longrightarrow>
   process_publish (spec_publish_frame dup 2 retain topic ident payload @ rest)
      (of_nat (length (spec_publish_frame dup 2 retain topic ident payload))) st
   = Inr (st\<lparr>trace := trace st @
            [Call_publish (c_str (take 41 topic)) payload (of_nat (length payload)),
             QueueSend \<lparr>size = 4,
                        data = map Some (spec_ack_frame TYPE_PUBREC ident) @ replicate 124 None\<rparr>]\<rparr>)
   \<and> process_pubrel (spec_ack_frame TYPE_PUBREL ident' @ rest') 4 st'
   = Inr (st'\<lparr>trace := trace st' @
            [QueueSend \<lparr>size = 4,
                        data = map Some (spec_ack_frame TYPE_PUBCOMP ident') @ replicate 124 None\<rparr>,
             Call_pubrel ident']\<rparr>)"
  using process_publish_wf [of 2 dup retain topic ident payload rest st]
    process_pubrel_wf [of ident' rest' st']
  by (simp add: mqtt_pubrec_def mqtt_pubcomp_def ack_frame_spec mqtt_send_data_def emit_def)

theorem inbound_qos2_handshake_witness:
  "length (spec_publish_frame False 2 False [0x61] 9 [0x62, 0x63]) \<le> 255 \<and>
   spec_publish_frame False 2 False [0x61] 9 [0x62, 0x63]
     = [0x34, 0x07, 0x00, 0x01, 0x61, 0x00, 0x09, 0x62, 0x63] \<and>
   process_publish [0x34, 0x07, 0x00, 0x01, 0x61, 0x00, 0x09, 0x62, 0x63] 9 initial_state
     = Inr \<lparr>g_uuid = 0, trace =
            [Call_publish [0x61] [0x62, 0x63] 2,
             QueueSend \<lparr>size = 4,
                        data = [Some 0x50, Some 0x02, Some 0x00, Some 0x09] @ replicate 124 None\<rparr>]\<rparr> \<and>
   process_pubrel [0x62, 0x02, 0x00, 0x09] 4 initial_state
     = Inr \<lparr>g_uuid = 0, trace =
            [QueueSend \<lparr>size = 4,
                        data = [Some 0x70, Some 0x02, Some 0x00, Some 0x09] @ replicate 124 None\<rparr>,
             Call_pubrel 9]\<rparr>"
proof -
  have fr: "spec_publish_frame False 2 False [0x61] 9 [0x62, 0x63]
     = [0x34, 0x07, 0x00, 0x01, 0x61, 0x00, 0x09, 0x62, 0x63]"
    by code_simp
  have l: "length (spec_publish_frame False 2 False [0x61] 9 [0x62, 0x63]) \<le> 255"
    unfolding fr by simp
  have t: "c_str (take 41 [0x61 :: uint8_t]) = [0x61]"
    by (simp add: c_str_def)
  have a: "map Some (spec_ack_frame TYPE_PUBREC 9) = [Some 0x50, Some 0x02, Some 0x00, Some 0x09]"
    by code_simp
  have b: "map Some (spec_ack_frame TYPE_PUBCOMP 9) = [Some 0x70, Some 0x02, Some 0x00, Some 0x09]"
    by code_simp
  have c: "spec_ack_frame TYPE_PUBREL 9 = [0x62, 0x02, 0x00, 0x09]"
    by code_simp
  from inbound_qos2_handshake [OF l, of "[]" initial_state 9 "[]" initial_state]
  have "process_publish [0x34, 0x07, 0x00, 0x01, 0x61, 0x00, 0x09, 0x62, 0x63] 9 initial_state
     = Inr \<lparr>g_uuid = 0, trace =
            [Call_publish [0x61] [0x62, 0x63] 2,
             QueueSend \<lparr>size = 4,
                        data = [Some 0x50, Some 0x02, Some 0x00, Some 0x09] @ replicate 124 None\<rparr>]\<rparr>"
    and "process_pubrel [0x62, 0x02, 0x00, 0x09] 4 initial_state
     = Inr \<lparr>g_uuid = 0, trace =
            [QueueSend \<lparr>size = 4,
                        data = [Some 0x70, Some 0x02, Some 0x00, Some 0x09] @ replicate 124 None\<rparr>,
             Call_pubrel 9]\<rparr>"
    unfolding fr t a b c by (simp_all add: initial_state_def)
  with l fr show ?thesis by (intro conjI)
qed

end
